theory Spec2Isabelle
  imports Main "HOL-Library.Word"
begin

unbundle bit_operations_syntax

section \<open>Data model of lbunzip2.c\<close>

text \<open>
  Machine types: \<open>uintmax_t\<close> is taken as 64 bits, \<open>unsigned\<close> and \<open>uint32_t\<close> as 32 bits,
  all with wrap-around arithmetic. Sizes that the code keeps below \<open>MX_SPLIT\<close> or
  \<open>MX_DECOMPR\<close> (\<open>size_t\<close> counters) are natural numbers. C \<open>int\<close> flags that only ever
  hold 0 or 1 are booleans.
\<close>

type_synonym uintmax_t = "64 word"
type_synonym unsigned = "32 word"
type_synonym uint32_t = "32 word"
type_synonym byte = "8 word"

text \<open>\<open>log_fatal\<close> ends the process; the text after the program and file name is kept.
  A failed \<open>assert\<close> aborts as well.\<close>

datatype error = Fatal string | AssertFail string

text \<open>\<open>#define MX_SPLIT ((size_t)(1024u * 1024u / 4u))\<close>: words per input block.\<close>

definition MX_SPLIT :: nat where
  "MX_SPLIT = 1024 * 1024 div 4"

text \<open>\<open>#define MX_DECOMPR ((size_t)(1024u * 1024u))\<close>: bytes per decompressed sub-block.\<close>

definition MX_DECOMPR :: nat where
  "MX_DECOMPR = 1024 * 1024"

text \<open>\<open>struct s2w_blk\<close>: an input block. \<open>compr\<close> is kept as the bytes in memory (four per
  32-bit word); \<open>sb_next\<close> is the position of the following block in the chain.\<close>

record s2w_blk =
  sb_id :: uintmax_t
  sb_next :: "nat option"
  sb_refno :: unsigned
  sb_loaded :: nat
  sb_compr :: "byte list"

record w2w_blk_id =
  s2w_blk_id :: uintmax_t
  bzip2_blk_id :: uintmax_t
  last_bzip2 :: bool

text \<open>\<open>struct w2w_blk\<close>: a located bzip2 block; \<open>ybdec\<close> is \<open>None\<close> for the null pointer.\<close>

record 'dec w2w_blk =
  ww_id :: w2w_blk_id
  ybdec :: "'dec option"
  ww_bs100k :: unsigned
  ww_crc :: uint32_t
  ww_end_offs :: uintmax_t

record w2m_blk_id =
  w2w_id :: w2w_blk_id
  decompr_blk_id :: uintmax_t
  last_decompr :: bool

record w2m_blk_nid =
  n_s2w_blk_id :: uintmax_t
  n_bzip2_blk_id :: uintmax_t
  n_decompr_blk_id :: uintmax_t

text \<open>\<open>struct w2m_blk\<close>: a decompressed sub-block; the \<open>next\<close> link is the list it sits in.\<close>

record w2m_blk =
  wm_id :: w2m_blk_id
  produced :: nat
  bs100k :: unsigned
  bs100k1 :: unsigned
  crc :: uint32_t
  crc1 :: uint32_t
  end_offs :: uintmax_t
  decompr :: "byte list"

record w2m_q =
  needed :: w2m_blk_nid
  head :: "w2m_blk list"
  working :: unsigned
  num_rel :: unsigned

record m2s_q =
  num_free :: unsigned


definition w2m_blk_id_eq :: "w2m_blk_id \<Rightarrow> w2m_blk_nid \<Rightarrow> bool" where
  "w2m_blk_id_eq i nid \<longleftrightarrow>
     s2w_blk_id (w2w_id i) = n_s2w_blk_id nid
     \<and> bzip2_blk_id (w2w_id i) = n_bzip2_blk_id nid
     \<and> decompr_blk_id i = n_decompr_blk_id nid"

definition w2m_blk_cmp :: "w2m_blk \<Rightarrow> w2m_blk \<Rightarrow> int" where
  "w2m_blk_cmp a b =
     (if s2w_blk_id (w2w_id (wm_id a)) < s2w_blk_id (w2w_id (wm_id b)) then -1
      else if s2w_blk_id (w2w_id (wm_id a)) > s2w_blk_id (w2w_id (wm_id b)) then 1
      else if bzip2_blk_id (w2w_id (wm_id a)) < bzip2_blk_id (w2w_id (wm_id b)) then -1
      else if bzip2_blk_id (w2w_id (wm_id a)) > bzip2_blk_id (w2w_id (wm_id b)) then 1
      else if decompr_blk_id (wm_id a) < decompr_blk_id (wm_id b) then -1
      else if decompr_blk_id (wm_id a) > decompr_blk_id (wm_id b) then 1
      else 0)"


section \<open>Queues\<close>

text \<open>Modelled from the spec: \<open>pqueue.h\<close> is not among the sources. A priority queue is kept
  as a list ordered by its comparison function, so that \<open>pqueue_peek\<close> is the head (a least
  element), \<open>pqueue_pop\<close> drops it and \<open>pqueue_empty\<close> tests for the empty list.\<close>

fun pqueue_insert :: "('a \<Rightarrow> 'a \<Rightarrow> int) \<Rightarrow> 'a \<Rightarrow> 'a list \<Rightarrow> 'a list" where
  "pqueue_insert cmp x [] = [x]"
| "pqueue_insert cmp x (y # ys) =
     (if cmp x y < 0 then x # y # ys else y # pqueue_insert cmp x ys)"

definition w2m_q_init :: "unsigned \<Rightarrow> error + w2m_q" where
  "w2m_q_init num_worker =
     (if \<not> 0 < num_worker then Inl (AssertFail ''0u < num_worker'')
      else Inr \<lparr> needed = \<lparr> n_s2w_blk_id = 0, n_bzip2_blk_id = 0, n_decompr_blk_id = 0 \<rparr>,
                 head = [], working = num_worker, num_rel = 0 \<rparr>)"

definition m2s_q_init :: "unsigned \<Rightarrow> error + m2s_q" where
  "m2s_q_init n =
     (if \<not> 0 < n then Inl (AssertFail ''0u < num_free'') else Inr \<lparr> num_free = n \<rparr>)"

section \<open>The muxer\<close>

text \<open>
  The local variables of \<open>mux\<close>. \<open>written\<close> collects what \<open>xwrite\<close> sends to the output and
  \<open>progr\<close> the amounts handed to \<open>progress_update\<close> (both helpers are outside the sources;
  an I/O error of \<open>xwrite\<close> is not modelled). \<open>popped\<close> is a history variable that the C
  code does not have: every sub-block taken off \<open>reord\<close>, with the value \<open>finished\<close> had when
  it was taken.
\<close>

record mux_state =
  reord_needed :: w2m_blk_nid
  mx_bs100k :: unsigned
  mx_crc :: uint32_t
  any :: bool
  finished :: bool
  last_offs :: uintmax_t
  written :: "byte list"
  progr :: "uintmax_t list"
  popped :: "(w2m_blk \<times> bool) list"

definition mux_init :: mux_state where
  "mux_init =
     \<lparr> reord_needed = \<lparr> n_s2w_blk_id = 0, n_bzip2_blk_id = 0, n_decompr_blk_id = 0 \<rparr>,
       mx_bs100k = 0, mx_crc = 0, any = False, finished = False, last_offs = 0,
       written = [], progr = [], popped = [] \<rparr>"

text \<open>Lines 1442-1447: the block CRC is folded into the stream CRC, then the block size
  is checked against the stream's.\<close>

definition mux_crc_fold :: "mux_state \<Rightarrow> w2m_blk \<Rightarrow> error + mux_state" where
  "mux_crc_fold st b =
     (if last_decompr (wm_id b) then
        (let st1 = st\<lparr> mx_crc := (push_bit 1 (mx_crc st) XOR drop_bit 31 (mx_crc st)) XOR crc1 b \<rparr>
         in if mx_bs100k st1 < bs100k1 b then Inl (Fatal ''block overrun'') else Inr st1)
      else Inr st)"

text \<open>Lines 1449-1457: a sub-block that carries a new \<open>bs100k\<close> closes the current stream.\<close>

definition mux_new_stream :: "mux_state \<Rightarrow> w2m_blk \<Rightarrow> error + mux_state" where
  "mux_new_stream st b =
     (if bs100k b \<noteq> 0 then
        (let st1 = st\<lparr> mx_bs100k := bs100k b \<rparr>;
             st2 = st1\<lparr> any := (any st1 \<or> 9 \<ge> mx_bs100k st1) \<rparr>
         in if mx_crc st2 \<noteq> crc b then Inl (Fatal ''stream CRC mismatch'')
            else Inr (st2\<lparr> mx_crc := 0, finished := (9 < mx_bs100k st2) \<rparr>))
      else Inr st)"

text \<open>Lines 1459-1461.\<close>

definition mux_write :: "mux_state \<Rightarrow> w2m_blk \<Rightarrow> mux_state" where
  "mux_write st b =
     (if 0 < produced b then st\<lparr> written := written st @ take (produced b) (decompr b) \<rparr>
      else st)"

text \<open>Lines 1463-1468; \<open>isize\<close> is \<open>ispec->size\<close>.\<close>

definition mux_progress :: "uintmax_t \<Rightarrow> mux_state \<Rightarrow> w2m_blk \<Rightarrow> mux_state" where
  "mux_progress isize st b =
     (if finished st then st\<lparr> progr := progr st @ [(isize + 3) div 4 - last_offs st] \<rparr>
      else if last_decompr (wm_id b) \<and> end_offs b > last_offs st then
        st\<lparr> progr := progr st @ [end_offs b - last_offs st], last_offs := end_offs b \<rparr>
      else st)"

text \<open>Lines 1471-1484: the next sub-block to wait for.\<close>

definition mux_advance :: "mux_state \<Rightarrow> w2m_blk \<Rightarrow> mux_state" where
  "mux_advance st b =
     (let n = reord_needed st in
      if last_decompr (wm_id b) then
        (if last_bzip2 (w2w_id (wm_id b)) then
           st\<lparr> reord_needed := n\<lparr> n_s2w_blk_id := n_s2w_blk_id n + 1, n_bzip2_blk_id := 0,
                                   n_decompr_blk_id := 0 \<rparr> \<rparr>
         else
           st\<lparr> reord_needed := n\<lparr> n_bzip2_blk_id := n_bzip2_blk_id n + 1,
                                   n_decompr_blk_id := 0 \<rparr> \<rparr>)
      else st\<lparr> reord_needed := n\<lparr> n_decompr_blk_id := n_decompr_blk_id n + 1 \<rparr> \<rparr>)"

text \<open>Lines 1441-1488: one sub-block that equals \<open>reord_needed\<close> is validated, written and
  released.\<close>

definition mux_blk :: "uintmax_t \<Rightarrow> mux_state \<Rightarrow> w2m_blk \<Rightarrow> error + mux_state" where
  "mux_blk isize st b =
     (case (if \<not> finished st then
              (case mux_crc_fold st b of
                 Inl e \<Rightarrow> Inl e
               | Inr st1 \<Rightarrow>
                   (case mux_new_stream st1 b of
                      Inl e \<Rightarrow> Inl e
                    | Inr st2 \<Rightarrow> Inr (mux_progress isize (mux_write st2 b) b)))
            else Inr st) of
        Inl e \<Rightarrow> Inl e
      | Inr st3 \<Rightarrow> Inr ((mux_advance st3 b)\<lparr> popped := popped st3 @ [(b, finished st)] \<rparr>))"

text \<open>Lines 1436-1489: write out the initial continuous sequence of \<open>reord\<close>.\<close>

fun mux_drain :: "uintmax_t \<Rightarrow> mux_state \<Rightarrow> w2m_blk list \<Rightarrow> error + mux_state \<times> w2m_blk list" where
  "mux_drain isize st [] = Inr (st, [])"
| "mux_drain isize st (b # reord) =
     (if \<not> w2m_blk_id_eq (wm_id b) (reord_needed st) then Inr (st, b # reord)
      else (case mux_blk isize st b of
              Inl e \<Rightarrow> Inl e
            | Inr st' \<Rightarrow> mux_drain isize st' reord))"

text \<open>
  Lines 1393-1499. The muxer runs beside the workers; what it finds in \<open>w2m_q\<close> each time it
  wakes up is given as a list of snapshots \<open>(head, working, num_rel)\<close>, the list \<open>head\<close>
  in the order of its links. The loop ends with the first snapshot in which no worker
  is left; \<open>None\<close> stands for a muxer that waits for a snapshot that never comes.
\<close>

type_synonym snapshot = "w2m_blk list \<times> unsigned \<times> unsigned"

fun mux_loop :: "uintmax_t \<Rightarrow> w2m_q \<Rightarrow> m2s_q \<Rightarrow> mux_state \<Rightarrow> w2m_blk list \<Rightarrow> snapshot list
    \<Rightarrow> (error + w2m_q \<times> m2s_q \<times> mux_state \<times> w2m_blk list) option" where
  "mux_loop isize q m st reord [] = None"
| "mux_loop isize q m st reord ((w2m_blk, wrk, nrel) # snaps) =
     (let q1 = q\<lparr> head := [], num_rel := 0, working := wrk \<rparr>;
          m1 = (if 0 < nrel then m\<lparr> num_free := num_free m + nrel \<rparr> else m);
          reord1 = fold (pqueue_insert w2m_blk_cmp) w2m_blk reord
      in case mux_drain isize st reord1 of
           Inl e \<Rightarrow> Some (Inl e)
         | Inr (st', reord') \<Rightarrow>
             (let q2 = q1\<lparr> needed := reord_needed st' \<rparr>
              in if 0 < wrk then mux_loop isize q2 m1 st' reord' snaps
                 else Some (Inr (q2, m1, st', reord'))))"

text \<open>Lines 1502-1512, after the loop.\<close>

definition mux_finish :: "uintmax_t \<Rightarrow> mux_state \<Rightarrow> error + mux_state" where
  "mux_finish isize st =
     (if \<not> any st then Inl (Fatal ''not a valid bzip2 file'')
      else
        (let st1 = (if \<not> finished st
                    then st\<lparr> progr := progr st @ [(isize + 3) div 4 - last_offs st] \<rparr> else st)
         in if n_decompr_blk_id (reord_needed st1) \<noteq> 0
            then Inl (AssertFail ''0u == reord_needed.decompr_blk_id'')
            else if n_bzip2_blk_id (reord_needed st1) \<noteq> 0
            then Inl (AssertFail ''0u == reord_needed.bzip2_blk_id'')
            else Inr st1))"

definition mux :: "uintmax_t \<Rightarrow> w2m_q \<Rightarrow> m2s_q \<Rightarrow> snapshot list
    \<Rightarrow> (error + w2m_q \<times> m2s_q \<times> mux_state) option" where
  "mux isize q m snaps =
     (case mux_loop isize q m mux_init [] snaps of
        None \<Rightarrow> None
      | Some (Inl e) \<Rightarrow> Some (Inl e)
      | Some (Inr (q', m', st, reord)) \<Rightarrow>
          (case mux_finish isize st of
             Inl e \<Rightarrow> Some (Inl e)
           | Inr st' \<Rightarrow> Some (Inr (q', m', st'))))"


section \<open>The splitter\<close>

text \<open>Modelled from the spec: \<open>xread\<close> is not among the sources. It fills the buffer with up
  to \<open>vacant\<close> bytes of what is left of the input and leaves in \<open>vacant\<close> the number of
  bytes it could not fill; nothing read means end of file. The result is the bytes
  stored, the rest of the input and the new \<open>vacant\<close>.\<close>

definition xread :: "byte list \<Rightarrow> nat \<Rightarrow> byte list \<times> byte list \<times> nat" where
  "xread input vacant = (take vacant input, drop vacant input, vacant - length (take vacant input))"

text \<open>Lines 397-398: the last word is padded with zero bytes. \<open>compr\<close> is the part of the
  buffer written so far, so the byte at index \<open>4u * MX_SPLIT - vacant\<close> is the next one.\<close>

function split_pad :: "byte list \<Rightarrow> nat \<Rightarrow> byte list \<times> nat" where
  "split_pad compr vacant =
     (if 0 < vacant mod 4 then split_pad (compr @ [0]) (vacant - 1) else (compr, vacant))"
  by pat_completeness auto
termination
  by (relation "measure (\<lambda>(compr, vacant). vacant)") auto

declare split_pad.simps [simp del]

text \<open>
  The state of \<open>split\<close>: its local variables, the input not yet read, and the fields of
  \<open>sw2w_q\<close> it writes. Input blocks live in \<open>ss_heap\<close> in the order of their allocation,
  and a pointer to one is its position there. \<open>ss_published\<close> is a history variable:
  every block as it was when the splitter put it into the queue. The workers and the
  slot counter \<open>m2s_q\<close>, which only delays the splitter, are left out.
\<close>

record split_state =
  ss_input :: "byte list"
  ss_id :: uintmax_t
  ss_atch_scan :: "nat option"
  ss_heap :: "s2w_blk list"
  ss_next_scan :: "nat option"
  ss_eof :: bool
  ss_published :: "s2w_blk list"

definition split_init :: "byte list \<Rightarrow> split_state" where
  "split_init input =
     \<lparr> ss_input = input, ss_id = 0, ss_atch_scan = None, ss_heap = [], ss_next_scan = None,
       ss_eof = False, ss_published = [] \<rparr>"

text \<open>Lines 388-399: the buffer is filled and \<open>vacant\<close> converted to words. The result is
  the bytes in the buffer, the rest of the input and \<open>vacant\<close>.\<close>

definition split_fill :: "byte list \<Rightarrow> byte list \<times> byte list \<times> nat" where
  "split_fill input =
     (let (buf, rest, vacant0) = xread input (4 * MX_SPLIT);
          (compr, vacant1) = split_pad buf vacant0
      in (compr, rest, vacant1 div 4))"

text \<open>Lines 401-416: an empty input block is freed, another one gets its fields.\<close>

definition split_alloc :: "split_state \<Rightarrow> byte list \<Rightarrow> nat \<Rightarrow> s2w_blk option" where
  "split_alloc s compr vacant =
     (if MX_SPLIT = vacant then None
      else Some \<lparr> sb_id = ss_id s + 1, sb_next = None,
                  sb_refno = 1 + (if ss_atch_scan s \<noteq> None then 1 else 0),
                  sb_loaded = MX_SPLIT - vacant, sb_compr = compr \<rparr>)"

text \<open>Lines 418-512: the block (or the null pointer) is put into the queue and linked
  to its predecessor; the flag tells whether \<open>0u == vacant\<close>.\<close>

definition split_attach :: "split_state \<Rightarrow> byte list \<Rightarrow> s2w_blk option \<Rightarrow> nat
    \<Rightarrow> error + split_state \<times> bool" where
  "split_attach s rest s2w_blk vacant =
     (let id' = (case s2w_blk of None \<Rightarrow> ss_id s | Some b \<Rightarrow> sb_id b);
          ptr = (case s2w_blk of None \<Rightarrow> None | Some b \<Rightarrow> Some (length (ss_heap s)));
          heap1 = (case s2w_blk of None \<Rightarrow> ss_heap s | Some b \<Rightarrow> ss_heap s @ [b]);
          publ = (case s2w_blk of None \<Rightarrow> ss_published s | Some b \<Rightarrow> ss_published s @ [b])
      in if ss_eof s then Inl (AssertFail ''!sw2w_q->eof'')
         else
           (let next_scan' = (if ss_next_scan s = None then ptr else ss_next_scan s)
            in case (case ss_atch_scan s of
                       None \<Rightarrow> Inr heap1
                     | Some a \<Rightarrow>
                         if \<not> 0 < sb_refno (heap1 ! a) then Inl (AssertFail ''0u < atch_scan->refno'')
                         else Inr (heap1[a := (heap1 ! a)\<lparr> sb_next := ptr \<rparr>])) of
                 Inl e \<Rightarrow> Inl e
               | Inr heap2 \<Rightarrow>
                   if vacant = 0
                   then Inr (s\<lparr> ss_input := rest, ss_id := id', ss_atch_scan := ptr,
                                ss_heap := heap2, ss_next_scan := next_scan',
                                ss_published := publ \<rparr>, True)
                   else Inr (s\<lparr> ss_input := rest, ss_id := id', ss_heap := heap2,
                                ss_next_scan := next_scan', ss_eof := True,
                                ss_published := publ \<rparr>, False)))"

text \<open>Lines 386-512: one turn of the \<open>do\<close> loop.\<close>

definition split_iter :: "split_state \<Rightarrow> error + split_state \<times> bool" where
  "split_iter s =
     (let (compr, rest, vacant) = split_fill (ss_input s)
      in split_attach s rest (split_alloc s compr vacant) vacant)"

lemma split_pad_eq:
  "split_pad compr vacant = (compr @ replicate (vacant mod 4) 0, vacant - vacant mod 4)"
proof (induction compr vacant rule: split_pad.induct)
  case (1 compr vacant)
  show ?case
  proof (cases "0 < vacant mod 4")
    case True
    have step: "split_pad compr vacant = split_pad (compr @ [0]) (vacant - 1)"
      by (subst split_pad.simps) (simp only: True if_True)
    from True obtain n where n: "vacant = Suc n" by (cases vacant) auto
    from True n have m: "Suc n mod 4 = Suc (n mod 4)" by (simp add: mod_Suc split: if_splits)
    show ?thesis unfolding step 1 [OF True] unfolding n m by simp
  next
    case False
    have "split_pad compr vacant = (compr, vacant)"
      by (subst split_pad.simps) (simp only: False if_False)
    moreover from False have "vacant mod 4 = 0" by simp
    ultimately show ?thesis by simp
  qed
qed

lemma pad_arith:
  fixes n M :: nat
  assumes "n \<le> 4 * M"
  defines "v \<equiv> 4 * M - n"
  shows "n + v mod 4 = 4 * (M - (v - v mod 4) div 4)" and "(v - v mod 4) div 4 \<le> M"
    and "(v - v mod 4) div 4 = M \<longleftrightarrow> n = 0" and "(v - v mod 4) div 4 = 0 \<longleftrightarrow> v < 4"
proof -
  define q r where "q = v div 4" and "r = v mod 4"
  have a: "(v - v mod 4) div 4 = q" by (simp add: minus_mod_eq_mult_div q_def)
  have b: "v = 4 * q + r" by (simp add: q_def r_def)
  have c: "v \<le> 4 * M" and d: "n = 4 * M - v" using assms by (simp_all add: v_def)
  have e: "r < 4" by (simp add: r_def)
  show "(v - v mod 4) div 4 \<le> M" unfolding a using b c by linarith
  show "n + v mod 4 = 4 * (M - (v - v mod 4) div 4)"
    unfolding a unfolding r_def [symmetric] using b c d by linarith
  show "(v - v mod 4) div 4 = M \<longleftrightarrow> n = 0" unfolding a using b c d e by linarith
  show "(v - v mod 4) div 4 = 0 \<longleftrightarrow> v < 4" unfolding a using b e by linarith
qed

text \<open>What \<open>split_fill\<close> gives: the bytes read, padded with zero bytes to whole words.\<close>

lemma split_fill_eq:
  assumes "split_fill input = (compr, rest, vacant)"
  shows "compr = take (4 * MX_SPLIT) input
           @ replicate ((4 * MX_SPLIT - length (take (4 * MX_SPLIT) input)) mod 4) 0"
    and "rest = drop (4 * MX_SPLIT) input"
    and "length compr = 4 * (MX_SPLIT - vacant)"
    and "vacant \<le> MX_SPLIT"
    and "vacant = MX_SPLIT \<longleftrightarrow> input = []"
    and "vacant = 0 \<longleftrightarrow> 4 * MX_SPLIT - length (take (4 * MX_SPLIT) input) < 4"
proof -
  have le: "length (take (4 * MX_SPLIT) input) \<le> 4 * MX_SPLIT" by simp
  note ar = pad_arith [OF le]
  from assms have c: "compr = take (4 * MX_SPLIT) input
           @ replicate ((4 * MX_SPLIT - length (take (4 * MX_SPLIT) input)) mod 4) 0"
    and r: "rest = drop (4 * MX_SPLIT) input"
    and v: "vacant = ((4 * MX_SPLIT - length (take (4 * MX_SPLIT) input))
        - (4 * MX_SPLIT - length (take (4 * MX_SPLIT) input)) mod 4) div 4"
    by (simp_all add: split_fill_def xread_def split_pad_eq)
  show "compr = take (4 * MX_SPLIT) input
           @ replicate ((4 * MX_SPLIT - length (take (4 * MX_SPLIT) input)) mod 4) 0" by (rule c)
  show "rest = drop (4 * MX_SPLIT) input" by (rule r)
  show "length compr = 4 * (MX_SPLIT - vacant)" unfolding v using ar(1) by (simp add: c)
  show "vacant \<le> MX_SPLIT" unfolding v by (rule ar(2))
  have "length (take (4 * MX_SPLIT) input) = 0 \<longleftrightarrow> input = []"
    by (cases input) (simp_all add: MX_SPLIT_def)
  with ar(3) show "vacant = MX_SPLIT \<longleftrightarrow> input = []" unfolding v by simp
  show "vacant = 0 \<longleftrightarrow> 4 * MX_SPLIT - length (take (4 * MX_SPLIT) input) < 4"
    unfolding v by (rule ar(4))
qed

lemma split_iter_shorter:
  assumes "split_iter s = Inr (s', True)"
  shows "length (ss_input s') < length (ss_input s)"
proof -
  obtain compr rest vacant where f: "split_fill (ss_input s) = (compr, rest, vacant)"
    by (cases "split_fill (ss_input s)") auto
  from assms f have z: "vacant = 0" and r: "ss_input s' = rest"
    by (auto simp: split_iter_def split_attach_def Let_def split: if_splits sum.splits option.splits)
  from split_fill_eq(6) [OF f] z
  have "4 * MX_SPLIT - length (take (4 * MX_SPLIT) (ss_input s)) < 4" by simp
  then have "length (ss_input s) > 0" by (auto simp: MX_SPLIT_def)
  with r split_fill_eq(2) [OF f] show ?thesis by (simp add: MX_SPLIT_def)
qed

text \<open>Lines 376-513: the loop runs while the block read was full.\<close>

function split_loop :: "split_state \<Rightarrow> error + split_state" where
  "split_loop s =
     (case split_iter s of
        Inl e \<Rightarrow> Inl e
      | Inr (s', again) \<Rightarrow> if again then split_loop s' else Inr s')"
  by pat_completeness auto
termination
  by (relation "measure (\<lambda>s. length (ss_input s))") (auto dest: split_iter_shorter)

declare split_loop.simps [simp del]

definition split :: "byte list \<Rightarrow> error + split_state" where
  "split input = split_loop (split_init input)"




section \<open>The workers\<close>

text \<open>
  The inner codec (\<open>yambi.h\<close>) is not among the sources and is a parameter: a decoder
  state of type \<open>'dec\<close> and the four operations the workers call. \<open>YBdec_retrieve\<close> gets the
  decoder, the bytes of the input block, \<open>ipos\<close>, \<open>loaded\<close>, \<open>ibitbuf\<close> and \<open>ibits_left\<close>
  and gives back its return value, the decoder and the three cursors it updates in
  place. \<open>YBdec_work\<close> gives the block's \<open>bs100k\<close>. \<open>YBdec_emit\<close> gets the room in the output
  buffer and gives the bytes it produced and the block CRC.
\<close>

datatype ybret = YB_OK | YB_UNDERFLOW | YB_DONE | YB_ERR int

record 'dec yambi =
  YBdec_init :: 'dec
  YBdec_retrieve :: "'dec \<Rightarrow> byte list \<Rightarrow> nat \<Rightarrow> nat \<Rightarrow> unsigned \<Rightarrow> unsigned
                       \<Rightarrow> ybret \<times> 'dec \<times> nat \<times> unsigned \<times> unsigned"
  YBdec_work :: "'dec \<Rightarrow> ybret \<times> 'dec \<times> unsigned"
  YBdec_emit :: "'dec \<Rightarrow> nat \<Rightarrow> ybret \<times> 'dec \<times> byte list \<times> uint32_t"

text \<open>The tables of \<open>scantab.h\<close>, which is not among the sources either: the byte-indexed
  automaton, the bit-indexed one and their accepting state.\<close>

record scantab =
  big_dfa :: "nat \<Rightarrow> nat \<Rightarrow> nat"
  mini_dfa :: "nat \<Rightarrow> nat \<Rightarrow> nat"
  dfa_ACCEPT :: nat

text \<open>\<open>ntohl(s2w_blk->compr[i])\<close>: the four bytes of word \<open>i\<close>, first byte highest.\<close>

definition ntohl_compr :: "s2w_blk \<Rightarrow> nat \<Rightarrow> unsigned" where
  "ntohl_compr blk i =
     push_bit 24 (ucast (sb_compr blk ! (4 * i))) OR push_bit 16 (ucast (sb_compr blk ! (4 * i + 1)))
     OR push_bit 8 (ucast (sb_compr blk ! (4 * i + 2))) OR ucast (sb_compr blk ! (4 * i + 3))"

subsection \<open>Decompression of one block\<close>

text \<open>Lines 635-641 (and 567-573): a sub-block is put in front of the list of \<open>w2m_q\<close>.\<close>

definition w2m_push :: "w2m_blk \<Rightarrow> w2m_q \<Rightarrow> error + w2m_q" where
  "w2m_push b q =
     (if \<not> 0 < working q then Inl (AssertFail ''0u < w2m_q->working'')
      else Inr (q\<lparr> head := b # head q \<rparr>))"

text \<open>Lines 584-642: the \<open>do\<close> loop of \<open>work_decompr\<close>. It runs for as long as the decoder asks
  for more room, so it need not end: not returning is \<open>None\<close>.\<close>

partial_function (option) work_emit :: "'dec yambi \<Rightarrow> 'dec w2w_blk \<Rightarrow> unsigned \<Rightarrow> 'dec \<Rightarrow> uintmax_t
    \<Rightarrow> w2m_q \<Rightarrow> (error + w2m_q) option" where
  "work_emit yb w bs dec blk_id q =
     (case YBdec_emit yb dec MX_DECOMPR of
        (ret, dec', out, c) \<Rightarrow>
          if ret \<noteq> YB_OK \<and> ret \<noteq> YB_UNDERFLOW
          then Some (Inl (Fatal ''data error while emitting block''))
          else
            (case w2m_push
                    \<lparr> wm_id = \<lparr> w2w_id = ww_id w, decompr_blk_id = blk_id,
                                 last_decompr = (ret = YB_OK) \<rparr>,
                      produced = length out, bs100k = ww_bs100k w, bs100k1 = bs,
                      crc = ww_crc w, crc1 = c, end_offs = ww_end_offs w, decompr = out \<rparr> q of
               Inl e \<Rightarrow> Some (Inl e)
             | Inr q' \<Rightarrow>
                 if ret = YB_UNDERFLOW then work_emit yb w bs dec' (blk_id + 1) q'
                 else Some (Inr q')))"

text \<open>Lines 543-645.\<close>

definition work_decompr :: "'dec yambi \<Rightarrow> 'dec w2w_blk \<Rightarrow> w2m_q \<Rightarrow> (error + w2m_q) option" where
  "work_decompr yb w q =
     (case ybdec w of
        None \<Rightarrow>
          Some (w2m_push
                  \<lparr> wm_id = \<lparr> w2w_id = ww_id w, decompr_blk_id = 0, last_decompr = True \<rparr>,
                    produced = 0, bs100k = ww_bs100k w, bs100k1 = 0,
                    crc = 0, crc1 = 0, end_offs = 0, decompr = [] \<rparr> q)
      | Some dec \<Rightarrow>
          (case YBdec_work yb dec of
             (ret, dec', bs) \<Rightarrow>
               if ret \<noteq> YB_OK then Some (Inl (Fatal ''data error while decompressing block''))
               else work_emit yb w bs dec' 0 q))"

subsection \<open>Scanning an input block\<close>

text \<open>
  What a scanning worker does to the queues, in the order it does it: \<open>Publish\<close> is the
  \<open>pqueue_insert\<close> into \<open>deco_q\<close> at the end of \<open>work_oflush\<close>, noted with the \<open>id\<close> of the
  input block under the cursor, \<open>ipos\<close> and \<open>ibits_left\<close> at that moment; \<open>Release\<close> is a
  call of \<open>work_release\<close> for the input block with that \<open>id\<close>. \<open>Publish_late\<close> is the
  \<open>work_oflush\<close> of line 1116, whose \<open>end_offs\<close> was computed from the \<open>id\<close> field read
  (line 1114) after \<open>work_release\<close> (line 1111) had let the input block go; it is noted
  with the \<open>id\<close> that was read there.
\<close>

datatype 'dec event =
    Publish "'dec w2w_blk" uintmax_t nat unsigned
  | Publish_late "'dec w2w_blk" uintmax_t nat unsigned
  | Release uintmax_t

text \<open>Lines 654-665 of \<open>work_oflush\<close>: the identity of the block and the next index.\<close>

definition work_oflush :: "'dec w2w_blk \<Rightarrow> uintmax_t \<Rightarrow> uintmax_t \<Rightarrow> bool \<Rightarrow> 'dec w2w_blk \<times> uintmax_t" where
  "work_oflush w s2w_id bzip2_id lastb =
     (if ybdec w \<noteq> None
      then (w\<lparr> ww_id := \<lparr> s2w_blk_id = s2w_id, bzip2_blk_id = bzip2_id, last_bzip2 = lastb \<rparr> \<rparr>,
            bzip2_id + 1)
      else (w\<lparr> ww_id := \<lparr> s2w_blk_id = 0, bzip2_blk_id = 0, last_bzip2 = True \<rparr> \<rparr>, bzip2_id))"

text \<open>The assignment before each call of \<open>work_oflush\<close> (lines 1022, 1063, 1071, 1114, 1122,
  1241, 1249).\<close>

definition set_end_offs :: "s2w_blk \<Rightarrow> nat \<Rightarrow> 'dec w2w_blk \<Rightarrow> 'dec w2w_blk" where
  "set_end_offs blk ipos w =
     w\<lparr> ww_end_offs := (if 0 < sb_id blk then (sb_id blk - 1) * of_nat MX_SPLIT + of_nat ipos
                        else 0) \<rparr>"

datatype sm_state = CRC1 | CRC2 | STREAM_MAGIC_1 | STREAM_MAGIC_2 | BLOCK_MAGIC_1
  | BLOCK_MAGIC_2 | BLOCK_MAGIC_3 | EOS_2 | EOS_3 | EOS_CRC_1 | EOS_CRC_2 | ACCEPT

text \<open>
  Where \<open>work_retrieve\<close> stands: at the head of the first retrieve loop (line 1014), of
  the second (line 1047), or of the loop that reads what lies between two blocks (line
  1092) in one of its states; or it has returned, or the process has been stopped.
\<close>

datatype pc = Outer | Inner | Magic sm_state | Returned | Failed error

text \<open>
  The local variables of \<open>work_retrieve\<close>. \<open>cur\<close> is the input block \<open>s2w_blk\<close> points to
  and \<open>chain\<close> the blocks that follow it through their \<open>next\<close> links once the splitter
  has linked them; \<open>work_get_second\<close> hands over the head of \<open>chain\<close>, or the null pointer
  at the end of the input, after it has released \<open>cur\<close>. (That it may decompress queued
  blocks and sleep before doing so does not touch these variables.) \<open>trace\<close> is the
  history of events. \<open>stale_id\<close> is not a variable of the source: \<open>work_release\<close> frees an
  input block that no other worker holds, and \<open>stale_id b\<close> is what a later read of the \<open>id\<close>
  field of \<open>b\<close> gives (the \<open>id\<close> of \<open>b\<close> while another worker still holds it, whatever the
  freed memory holds otherwise).
\<close>

record 'dec rstate =
  pc :: pc
  cur :: s2w_blk
  chain :: "s2w_blk list"
  ipos :: nat
  ibitbuf :: unsigned
  ibits_left :: unsigned
  first_s2w_blk_id :: uintmax_t
  first :: bool
  bzip2_id :: uintmax_t
  w2w :: "'dec w2w_blk"
  trace :: "'dec event list"
  stale_id :: "s2w_blk \<Rightarrow> uintmax_t"

text \<open>\<open>xmalloc\<close> followed by lines 1009-1011 (1026-1028, 1075-1077, 1253-1255); \<open>junk\<close> is
  what the fresh memory holds.\<close>

definition fresh_w2w :: "'dec yambi \<Rightarrow> 'dec w2w_blk \<Rightarrow> 'dec w2w_blk" where
  "fresh_w2w yb junk = junk\<lparr> ybdec := Some (YBdec_init yb), ww_bs100k := 0, ww_crc := 0 \<rparr>"

text \<open>\<open>work_oflush\<close> with the assignment of \<open>end_offs\<close> before it.\<close>

definition flush :: "bool \<Rightarrow> 'dec rstate \<Rightarrow> 'dec rstate" where
  "flush lastb s =
     (let (w, bz) = work_oflush (set_end_offs (cur s) (ipos s) (w2w s)) (first_s2w_blk_id s)
                      (bzip2_id s) lastb
      in s\<lparr> w2w := w, bzip2_id := bz,
             trace := trace s @ [Publish w (sb_id (cur s)) (ipos s) (ibits_left s)] \<rparr>)"

definition release :: "'dec rstate \<Rightarrow> 'dec rstate" where
  "release s = s\<lparr> trace := trace s @ [Release (sb_id (cur s))] \<rparr>"

text \<open>Lines 1113-1117: \<open>work_oflush\<close> with the assignment of \<open>end_offs\<close> before it, which here
  comes after the \<open>work_release\<close> of line 1111 and reads the \<open>id\<close> of a block that may have
  been freed.\<close>

definition flush_late :: "'dec rstate \<Rightarrow> 'dec rstate" where
  "flush_late s =
     (let c = stale_id s (cur s);
          (w, bz) = work_oflush
                      ((w2w s)\<lparr> ww_end_offs :=
                          (if 0 < c then (c - 1) * of_nat MX_SPLIT + of_nat (ipos s) else 0) \<rparr>)
                      (first_s2w_blk_id s) (bzip2_id s) True
      in s\<lparr> w2w := w, bzip2_id := bz,
             trace := trace s @ [Publish_late w c (ipos s) (ibits_left s)] \<rparr>)"

text \<open>Lines 1036-1044 (and 1133-1144): the next input block is taken; \<open>k\<close> goes on with
  it, \<open>z\<close> is what happens at the null pointer.\<close>

definition get_second :: "('dec rstate \<Rightarrow> 'dec rstate) \<Rightarrow> ('dec rstate \<Rightarrow> 'dec rstate)
    \<Rightarrow> 'dec rstate \<Rightarrow> 'dec rstate" where
  "get_second z k s =
     (case chain s of
        [] \<Rightarrow> z (release s)
      | nxt # rest \<Rightarrow>
          (let s1 = (release s)\<lparr> cur := nxt, chain := rest, ipos := 0, first := False \<rparr>
           in if \<not> 0 < sb_loaded nxt then s1\<lparr> pc := Failed (AssertFail ''0u < s2w_blk->loaded'') \<rparr>
              else k s1))"

text \<open>The test of lines 1060 and 1238, in \<open>unsigned\<close> arithmetic on the left.\<close>

definition tail_done :: "'dec rstate \<Rightarrow> bool" where
  "tail_done s \<longleftrightarrow> unat ((48 + ibits_left s + 7) div 8) \<le> 4 * ipos s"

text \<open>The call of \<open>YBdec_retrieve\<close> with the cursors it updates.\<close>

definition retrieve :: "'dec yambi \<Rightarrow> 'dec rstate \<Rightarrow> (ybret \<times> 'dec rstate) option" where
  "retrieve yb s =
     (case ybdec (w2w s) of
        None \<Rightarrow> None
      | Some dec \<Rightarrow>
          (case YBdec_retrieve yb dec (sb_compr (cur s)) (ipos s) (sb_loaded (cur s))
                  (ibitbuf s) (ibits_left s) of
             (ret, dec', ipos', ibitbuf', ibits_left') \<Rightarrow>
               Some (ret, s\<lparr> w2w := (w2w s)\<lparr> ybdec := Some dec' \<rparr>, ipos := ipos',
                              ibitbuf := ibitbuf', ibits_left := ibits_left' \<rparr>)))"

text \<open>Lines 1014-1044: one turn of the first retrieve loop, with what follows it when
  the decoder runs out of input.\<close>

definition step_outer :: "'dec yambi \<Rightarrow> 'dec w2w_blk \<Rightarrow> 'dec rstate \<Rightarrow> 'dec rstate" where
  "step_outer yb junk s =
     (case retrieve yb s of
        None \<Rightarrow> s\<lparr> pc := Failed (AssertFail ''null decoder'') \<rparr>
      | Some (ret, s1) \<Rightarrow>
          if ret = YB_UNDERFLOW then
            (if MX_SPLIT > sb_loaded (cur s1)
             then s1\<lparr> pc := Failed (Fatal ''unterminated bzip2 block in short first input block'') \<rparr>
             else if MX_SPLIT \<noteq> sb_loaded (cur s1)
             then s1\<lparr> pc := Failed (AssertFail ''MX_SPLIT == s2w_blk->loaded'') \<rparr>
             else get_second
                    (\<lambda>t. t\<lparr> pc := Failed (Fatal ''unterminated bzip2 block in full first input block'') \<rparr>)
                    (\<lambda>t. t\<lparr> pc := Inner \<rparr>) s1)
          else if ret = YB_DONE then s1\<lparr> pc := Magic CRC1 \<rparr>
          else if ret \<noteq> YB_OK
          then s1\<lparr> pc := Failed (Fatal ''data error while retrieving block'') \<rparr>
          else (flush False s1)\<lparr> w2w := fresh_w2w yb junk, pc := Outer \<rparr>)"

text \<open>Lines 1047-1078: one turn of the second retrieve loop.\<close>

definition step_inner :: "'dec yambi \<Rightarrow> 'dec w2w_blk \<Rightarrow> 'dec rstate \<Rightarrow> 'dec rstate" where
  "step_inner yb junk s =
     (case retrieve yb s of
        None \<Rightarrow> s\<lparr> pc := Failed (AssertFail ''null decoder'') \<rparr>
      | Some (ret, s1) \<Rightarrow>
          if ret = YB_DONE then s1\<lparr> pc := Magic CRC1 \<rparr>
          else if ret = YB_UNDERFLOW then
            s1\<lparr> pc := Failed (Fatal (if MX_SPLIT = sb_loaded (cur s1)
                        then ''missing bzip2 block header in full second input block''
                        else ''unterminated bzip2 block in short second input block'')) \<rparr>
          else if ret \<noteq> YB_OK
          then s1\<lparr> pc := Failed (Fatal ''data error while retrieving block'') \<rparr>
          else if tail_done s1
          then (flush True (release s1))\<lparr> pc := Returned \<rparr>
          else (flush False s1)\<lparr> w2w := fresh_w2w yb junk, pc := Inner \<rparr>)"


text \<open>The \<open>switch\<close> of lines 1156-1232 with the statement after it: \<open>continue\<close> goes on in
  the new state, \<open>break\<close> skips the rest of the input block as garbage.\<close>

definition sm_switch :: "sm_state \<Rightarrow> unsigned \<Rightarrow> 'dec rstate \<Rightarrow> 'dec rstate" where
  "sm_switch st word s =
     (let brk = s\<lparr> ipos := sb_loaded (cur s), pc := Magic st \<rparr> in
      case st of
        CRC1 \<Rightarrow> s\<lparr> w2w := (w2w s)\<lparr> ww_crc := push_bit 16 word \<rparr>, pc := Magic CRC2 \<rparr>
      | CRC2 \<Rightarrow> s\<lparr> w2w := (w2w s)\<lparr> ww_crc := ww_crc (w2w s) OR word \<rparr>,
                    ibits_left := ibits_left s AND 0x18, pc := Magic STREAM_MAGIC_1 \<rparr>
      | STREAM_MAGIC_1 \<Rightarrow> if 0x425A \<noteq> word then brk else s\<lparr> pc := Magic STREAM_MAGIC_2 \<rparr>
      | STREAM_MAGIC_2 \<Rightarrow>
          if 0x6839 < word \<or> 0x6831 > word then brk
          else s\<lparr> w2w := (w2w s)\<lparr> ww_bs100k := word AND 15 \<rparr>, pc := Magic BLOCK_MAGIC_1 \<rparr>
      | BLOCK_MAGIC_1 \<Rightarrow>
          if 0x1772 = word then s\<lparr> pc := Magic EOS_2 \<rparr>
          else if 0x3141 \<noteq> word then brk else s\<lparr> pc := Magic BLOCK_MAGIC_2 \<rparr>
      | BLOCK_MAGIC_2 \<Rightarrow> if 0x5926 \<noteq> word then brk else s\<lparr> pc := Magic BLOCK_MAGIC_3 \<rparr>
      | BLOCK_MAGIC_3 \<Rightarrow> if 0x5359 \<noteq> word then brk else s\<lparr> pc := Magic ACCEPT \<rparr>
      | EOS_2 \<Rightarrow> if 0x4538 \<noteq> word then brk else s\<lparr> pc := Magic EOS_3 \<rparr>
      | EOS_3 \<Rightarrow> if 0x5090 \<noteq> word then brk else s\<lparr> pc := Magic EOS_CRC_1 \<rparr>
      | EOS_CRC_1 \<Rightarrow> if 0 \<noteq> word then brk else s\<lparr> pc := Magic EOS_CRC_2 \<rparr>
      | EOS_CRC_2 \<Rightarrow> if 0 \<noteq> word then brk else s\<lparr> pc := Magic STREAM_MAGIC_1 \<rparr>
      | ACCEPT \<Rightarrow> s\<lparr> pc := Failed (AssertFail ''0'') \<rparr>)"

text \<open>Lines 1238-1256: a block header has been read.\<close>

definition after_accept :: "'dec yambi \<Rightarrow> 'dec w2w_blk \<Rightarrow> 'dec rstate \<Rightarrow> 'dec rstate" where
  "after_accept yb junk s =
     (if \<not> first s \<and> tail_done s then (flush True (release s))\<lparr> pc := Returned \<rparr>
      else (flush False s)\<lparr> w2w := fresh_w2w yb junk, pc := (if \<not> first s then Inner else Outer) \<rparr>)"

text \<open>Lines 1147-1149: the next word of the input block enters the bit buffer.\<close>

definition load_word :: "'dec rstate \<Rightarrow> 64 word \<times> 'dec rstate" where
  "load_word s =
     (push_bit 32 (ucast (ibitbuf s)) OR ucast (ntohl_compr (cur s) (ipos s)),
      s\<lparr> ibits_left := ibits_left s + 32, ipos := ipos s + 1 \<rparr>)"

text \<open>Lines 1152-1235: sixteen bits are taken from the buffer \<open>ibitbuf64\<close> and examined.\<close>

definition take16 :: "'dec yambi \<Rightarrow> 'dec w2w_blk \<Rightarrow> sm_state \<Rightarrow> 64 word \<times> 'dec rstate \<Rightarrow> 'dec rstate" where
  "take16 yb junk st bs =
     (let (ibitbuf64, s) = bs;
          left = ibits_left s - 16;
          word = ucast (drop_bit (unat left) ibitbuf64 AND 0xFFFF);
          s1 = sm_switch st word (s\<lparr> ibits_left := left, ibitbuf := ucast ibitbuf64 \<rparr>)
      in if pc s1 = Magic ACCEPT then after_accept yb junk s1 else s1)"

text \<open>Lines 1092-1235: one turn of the loop between two blocks, in state \<open>st\<close>. Where the
  source asserts \<open>0 == s2w_blk->next\<close> and \<open>sw2w_q->eof\<close> for a short input block, the model
  checks that the chain ends there.\<close>

definition step_magic :: "'dec yambi \<Rightarrow> 'dec w2w_blk \<Rightarrow> sm_state \<Rightarrow> 'dec rstate \<Rightarrow> 'dec rstate" where
  "step_magic yb junk st s =
     (if 16 > ibits_left s then
        (if sb_loaded (cur s) = ipos s then
           (let s1 = s\<lparr> w2w := (w2w s)\<lparr> ww_bs100k :=
                          (if ww_bs100k (w2w s) = 0 then - 1 else ww_bs100k (w2w s)) \<rparr> \<rparr>
            in if \<not> first s1 then
                 (if MX_SPLIT = sb_loaded (cur s1)
                  then s1\<lparr> pc := Failed (Fatal
                               ''missing bzip2 block header in full second input block'') \<rparr>
                  else if chain s1 \<noteq> [] then s1\<lparr> pc := Failed (AssertFail ''0 == s2w_blk->next'') \<rparr>
                  else (flush_late (release s1))\<lparr> pc := Returned \<rparr>)
               else
                 (let s2 = s1\<lparr> w2w := set_end_offs (cur s1) (ipos s1) (w2w s1) \<rparr>
                  in if MX_SPLIT > sb_loaded (cur s2) then
                       (if chain s2 \<noteq> [] then s2\<lparr> pc := Failed (AssertFail ''0 == s2w_blk->next'') \<rparr>
                        else (flush True (release s2))\<lparr> pc := Returned \<rparr>)
                     else if MX_SPLIT \<noteq> sb_loaded (cur s2)
                     then s2\<lparr> pc := Failed (AssertFail ''MX_SPLIT == s2w_blk->loaded'') \<rparr>
                     else get_second (\<lambda>t. (flush True t)\<lparr> pc := Returned \<rparr>)
                            (\<lambda>t. take16 yb junk st (load_word t)) s2))
         else take16 yb junk st (load_word s))
      else take16 yb junk st (ucast (ibitbuf s), s))"

definition step :: "'dec yambi \<Rightarrow> 'dec w2w_blk \<Rightarrow> 'dec rstate \<Rightarrow> 'dec rstate" where
  "step yb junk s =
     (case pc s of
        Outer \<Rightarrow> step_outer yb junk s
      | Inner \<Rightarrow> step_inner yb junk s
      | Magic st \<Rightarrow> step_magic yb junk st s
      | Returned \<Rightarrow> s
      | Failed e \<Rightarrow> s)"

text \<open>The loops of \<open>work_retrieve\<close> need not end (the codec is a parameter), so the run is
  cut after \<open>n\<close> turns; a run that has returned or failed stays as it is.\<close>

fun run :: "'dec yambi \<Rightarrow> 'dec w2w_blk \<Rightarrow> nat \<Rightarrow> 'dec rstate \<Rightarrow> 'dec rstate" where
  "run yb junk 0 s = s"
| "run yb junk (Suc n) s = run yb junk n (step yb junk s)"

text \<open>Lines 997-1011: the entry of \<open>work_retrieve\<close>. For the first input block the
  \<open>goto first_block\<close> enters the loop between two blocks in state \<open>STREAM_MAGIC_1\<close>, with a
  block that has no decoder and whose \<open>bs100k\<close> is not initialised.\<close>

definition work_retrieve_init :: "'dec yambi \<Rightarrow> 'dec w2w_blk \<Rightarrow> (s2w_blk \<Rightarrow> uintmax_t)
    \<Rightarrow> s2w_blk \<Rightarrow> s2w_blk list \<Rightarrow> nat
    \<Rightarrow> unsigned \<Rightarrow> unsigned \<Rightarrow> 'dec rstate" where
  "work_retrieve_init yb junk stale blk rest ipos0 ibitbuf0 ibits_left0 =
     \<lparr> pc = (if 1 = sb_id blk then Magic STREAM_MAGIC_1 else Outer),
       cur = blk, chain = rest, ipos = ipos0, ibitbuf = ibitbuf0, ibits_left = ibits_left0,
       first_s2w_blk_id = sb_id blk, first = True, bzip2_id = 0,
       w2w = (if 1 = sb_id blk then junk\<lparr> ybdec := None, ww_crc := 0 \<rparr> else fresh_w2w yb junk),
       trace = [], stale_id = stale \<rparr>"

definition work_retrieve :: "'dec yambi \<Rightarrow> 'dec w2w_blk \<Rightarrow> (s2w_blk \<Rightarrow> uintmax_t) \<Rightarrow> nat
    \<Rightarrow> s2w_blk \<Rightarrow> s2w_blk list \<Rightarrow> nat
    \<Rightarrow> unsigned \<Rightarrow> unsigned \<Rightarrow> 'dec rstate" where
  "work_retrieve yb junk stale n blk rest ipos0 ibitbuf0 ibits_left0 =
     run yb junk n (work_retrieve_init yb junk stale blk rest ipos0 ibitbuf0 ibits_left0)"

text \<open>Lines 1281-1289: the byte-indexed pass over the words of the input block.\<close>

function scan_big :: "scantab \<Rightarrow> s2w_blk \<Rightarrow> nat \<Rightarrow> nat \<Rightarrow> nat \<times> nat \<times> unsigned \<times> nat" where
  "scan_big tab blk state ipos0 =
     (let backtrack_state = state;
          ibitbuf0 = ntohl_compr blk ipos0;
          state1 = big_dfa tab state (unat (drop_bit 24 ibitbuf0));
          state2 = big_dfa tab state1 (unat (drop_bit 16 ibitbuf0 AND 0xFF));
          state3 = big_dfa tab state2 (unat (drop_bit 8 ibitbuf0 AND 0xFF));
          state4 = big_dfa tab state3 (unat (ibitbuf0 AND 0xFF));
          ipos1 = ipos0 + 1
      in if dfa_ACCEPT tab \<noteq> state4 \<and> sb_loaded blk > ipos1
         then scan_big tab blk state4 ipos1
         else (state4, backtrack_state, ibitbuf0, ipos1))"
  by pat_completeness auto
termination
  by (relation "measure (\<lambda>(tab, blk, state, ipos0). sb_loaded blk - ipos0)") auto

declare scan_big.simps [simp del]

text \<open>Lines 1291-1294: the bit-indexed pass over the last word.\<close>

function scan_mini :: "scantab \<Rightarrow> unsigned \<Rightarrow> nat \<Rightarrow> nat \<Rightarrow> nat \<times> nat" where
  "scan_mini tab ibitbuf0 state ibits_left0 =
     (if dfa_ACCEPT tab \<noteq> state \<and> 0 < ibits_left0
      then scan_mini tab ibitbuf0
             (mini_dfa tab state (unat (drop_bit (ibits_left0 - 1) ibitbuf0 AND 1)))
             (ibits_left0 - 1)
      else (state, ibits_left0))"
  by pat_completeness auto
termination
  by (relation "measure (\<lambda>(tab, ibitbuf0, state, ibits_left0). ibits_left0)") auto

declare scan_mini.simps [simp del]

text \<open>Lines 1261-1313; the result is how the scan ended and the events up to there.\<close>

definition work_scan :: "scantab \<Rightarrow> 'dec yambi \<Rightarrow> 'dec w2w_blk \<Rightarrow> (s2w_blk \<Rightarrow> uintmax_t) \<Rightarrow> nat
    \<Rightarrow> s2w_blk \<Rightarrow> s2w_blk list
    \<Rightarrow> pc \<times> 'dec event list" where
  "work_scan tab yb junk stale n blk rest =
     (if \<not> 0 < sb_loaded blk then (Failed (AssertFail ''0u < s2w_blk->loaded''), [])
      else if 1 < sb_id blk then
        (let (state, backtrack_state, ibitbuf0, ipos0) = scan_big tab blk 0 0;
             (state', ibits_left0) = scan_mini tab ibitbuf0 backtrack_state 32
         in if dfa_ACCEPT tab \<noteq> state' then
              (if sb_loaded blk \<noteq> ipos0 then (Failed (AssertFail ''s2w_blk->loaded == ipos''), [])
               else if MX_SPLIT = sb_loaded blk
               then (Failed (Fatal ''missing bzip2 block header in full first input block''), [])
               else if \<not> MX_SPLIT > sb_loaded blk
               then (Failed (AssertFail ''MX_SPLIT > s2w_blk->loaded''), [])
               else if rest \<noteq> [] then (Failed (AssertFail ''0 == s2w_blk->next''), [])
               else (Returned, [Release (sb_id blk)]))
            else
              (let s = work_retrieve yb junk stale n blk rest ipos0 ibitbuf0 (of_nat ibits_left0)
               in (pc s, trace s)))
      else
        (let s = work_retrieve yb junk stale n blk rest 0 0 0 in (pc s, trace s)))"

section \<open>Invariants of the splitter\<close>

text \<open>What holds of the blocks published so far, of their copies in the heap and of the
  links between them: at every turn of the loop (\<open>split_mid\<close>) and at its end (\<open>split_inv\<close>).\<close>

definition chunk_ok :: "s2w_blk list \<Rightarrow> s2w_blk list \<Rightarrow> nat \<Rightarrow> bool" where
  "chunk_ok publ heap i \<longleftrightarrow>
     sb_id (publ ! i) = of_nat (i + 1) \<and> sb_next (publ ! i) = None
     \<and> sb_refno (publ ! i) = 1 + (if 0 < i then 1 else 0)
     \<and> heap ! i = (publ ! i)\<lparr> sb_next := (if i + 1 < length publ then Some (i + 1) else None) \<rparr>
     \<and> 0 < sb_loaded (publ ! i) \<and> sb_loaded (publ ! i) \<le> MX_SPLIT
     \<and> (i + 1 < length publ \<longrightarrow> sb_loaded (publ ! i) = MX_SPLIT)
     \<and> length (sb_compr (publ ! i)) = 4 * sb_loaded (publ ! i)"

definition split_inv :: "split_state \<Rightarrow> bool" where
  "split_inv s \<longleftrightarrow>
     length (ss_heap s) = length (ss_published s)
     \<and> ss_id s = of_nat (length (ss_published s))
     \<and> (\<forall>i < length (ss_published s). chunk_ok (ss_published s) (ss_heap s) i)"

definition split_mid :: "split_state \<Rightarrow> bool" where
  "split_mid s \<longleftrightarrow>
     split_inv s \<and> \<not> ss_eof s
     \<and> ss_atch_scan s = (if ss_published s = [] then None else Some (length (ss_published s) - 1))
     \<and> (\<forall>i < length (ss_published s). sb_loaded (ss_published s ! i) = MX_SPLIT)"

section \<open>Concrete data for the examples\<close>

definition nid :: "uintmax_t \<Rightarrow> uintmax_t \<Rightarrow> uintmax_t \<Rightarrow> w2m_blk_nid" where
  "nid a b c = \<lparr> n_s2w_blk_id = a, n_bzip2_blk_id = b, n_decompr_blk_id = c \<rparr>"

text \<open>A sub-block with the given identity and flags, and the other fields as given.\<close>

definition sub_blk :: "uintmax_t \<Rightarrow> uintmax_t \<Rightarrow> bool \<Rightarrow> uintmax_t \<Rightarrow> bool \<Rightarrow> unsigned \<Rightarrow> unsigned
    \<Rightarrow> uint32_t \<Rightarrow> uint32_t \<Rightarrow> w2m_blk" where
  "sub_blk s b lb d ld bs bs1 c c1 =
     \<lparr> wm_id = \<lparr> w2w_id = \<lparr> s2w_blk_id = s, bzip2_blk_id = b, last_bzip2 = lb \<rparr>,
                 decompr_blk_id = d, last_decompr = ld \<rparr>,
       produced = 0, bs100k = bs, bs100k1 = bs1, crc = c, crc1 = c1, end_offs = 0, decompr = [] \<rparr>"

definition input2 :: "byte list" where
  "input2 = replicate 1048577 0"

section \<open>Invariants of the scanner\<close>

text \<open>
  The blocks published in a history; the property of each event that C4 and C10 are
  about; and what holds of the history and of the block in the making at each place of
  \<open>work_retrieve\<close>: before the first block is published the block in the making has no
  decoder (\<open>runA\<close>, \<open>pendA\<close>), afterwards it has one (\<open>runB\<close>).
\<close>

fun published :: "'dec event list \<Rightarrow> 'dec w2w_blk list" where
  "published [] = []"
| "published (Publish w c i l # es) = w # published es"
| "published (Publish_late w c i l # es) = w # published es"
| "published (Release c # es) = published es"

fun live :: "pc \<Rightarrow> bool" where
  "live Returned = False"
| "live (Failed e) = False"
| "live p = True"

fun offs_ok :: "'dec event \<Rightarrow> bool" where
  "offs_ok (Publish w c i l) \<longleftrightarrow>
     ww_end_offs w = (if 0 < c then (c - 1) * of_nat MX_SPLIT + of_nat i else 0)"
| "offs_ok (Publish_late w c i l) \<longleftrightarrow>
     ww_end_offs w = (if 0 < c then (c - 1) * of_nat MX_SPLIT + of_nat i else 0)"
| "offs_ok (Release c) \<longleftrightarrow> True"

fun ids_ok :: "uintmax_t \<Rightarrow> 'dec event \<Rightarrow> bool" where
  "ids_ok fid (Publish w c i l) \<longleftrightarrow>
     (if ybdec w = None
      then ww_id w = \<lparr> s2w_blk_id = 0, bzip2_blk_id = 0, last_bzip2 = True \<rparr>
      else s2w_blk_id (ww_id w) = fid)"
| "ids_ok fid (Publish_late w c i l) \<longleftrightarrow>
     (if ybdec w = None
      then ww_id w = \<lparr> s2w_blk_id = 0, bzip2_blk_id = 0, last_bzip2 = True \<rparr>
      else s2w_blk_id (ww_id w) = fid)"
| "ids_ok fid (Release c) \<longleftrightarrow> True"

definition ev_inv :: "'dec rstate \<Rightarrow> bool" where
  "ev_inv s \<longleftrightarrow> (\<forall>e \<in> set (trace s). offs_ok e \<and> ids_ok (first_s2w_blk_id s) e)"

definition valid_bs :: "unsigned \<Rightarrow> bool" where
  "valid_bs b \<longleftrightarrow> 1 \<le> b \<and> b \<le> 9"

definition good :: "'dec rstate \<Rightarrow> bool" where
  "good s \<longleftrightarrow>
     (\<forall>w \<in> set (tl (published (trace s))). ybdec w \<noteq> None)
     \<and> (first_s2w_blk_id s \<noteq> 1 \<longrightarrow> (\<forall>w \<in> set (published (trace s)). ybdec w \<noteq> None))
     \<and> (first_s2w_blk_id s = 1 \<and> published (trace s) \<noteq> [] \<longrightarrow>
          ybdec (hd (published (trace s))) = None
          \<and> ww_bs100k (hd (published (trace s))) \<noteq> 0)"

definition runA :: "'dec rstate \<Rightarrow> bool" where
  "runA s \<longleftrightarrow> published (trace s) = [] \<and> first_s2w_blk_id s = 1 \<and> ybdec (w2w s) = None"

definition runB :: "'dec rstate \<Rightarrow> bool" where
  "runB s \<longleftrightarrow>
     good s \<and> ybdec (w2w s) \<noteq> None
     \<and> (first_s2w_blk_id s = 1 \<longrightarrow>
          published (trace s) \<noteq> [] \<and> valid_bs (ww_bs100k (hd (published (trace s)))))"

definition fin :: "'dec rstate \<Rightarrow> bool" where
  "fin s \<longleftrightarrow>
     good s
     \<and> (first_s2w_blk_id s = 1 \<longrightarrow>
          published (trace s) \<noteq> []
          \<and> (valid_bs (ww_bs100k (hd (published (trace s))))
               \<or> length (published (trace s)) = 1))"

definition failed :: "'dec rstate \<Rightarrow> bool" where
  "failed s \<longleftrightarrow>
     good s
     \<and> (first_s2w_blk_id s = 1 \<and> published (trace s) \<noteq> [] \<longrightarrow>
          valid_bs (ww_bs100k (hd (published (trace s)))))"

definition pendA :: "sm_state \<Rightarrow> 'dec rstate \<Rightarrow> bool" where
  "pendA st s \<longleftrightarrow>
     runA s \<and> (st = STREAM_MAGIC_1 \<or> st = STREAM_MAGIC_2 \<or> valid_bs (ww_bs100k (w2w s)))"




text \<open>An automaton that never accepts, a codec that always asks for more input, some
  contents for fresh memory, and a file that is a stream header and a block header.\<close>

definition tab_never :: scantab where
  "tab_never = \<lparr> big_dfa = (\<lambda>s b. 0), mini_dfa = (\<lambda>s b. 0), dfa_ACCEPT = 1 \<rparr>"

definition yb_more :: "unit yambi" where
  "yb_more = \<lparr> YBdec_init = (), YBdec_retrieve = (\<lambda>d c i l b n. (YB_UNDERFLOW, d, l, b, n)),
     YBdec_work = (\<lambda>d. (YB_OK, d, 9)), YBdec_emit = (\<lambda>d n. (YB_OK, d, [], 0)) \<rparr>"

definition junk0 :: "unit w2w_blk" where
  "junk0 = \<lparr> ww_id = \<lparr> s2w_blk_id = 7, bzip2_blk_id = 7, last_bzip2 = False \<rparr>, ybdec = None,
     ww_bs100k = 77, ww_crc = 7, ww_end_offs = 7 \<rparr>"

definition hdr_input :: "byte list" where
  "hdr_input = [0x42, 0x5A, 0x68, 0x39, 0x31, 0x41, 0x59, 0x26, 0x53, 0x59]"

definition hdr_blk :: s2w_blk where
  "hdr_blk = \<lparr> sb_id = 1, sb_next = None, sb_refno = 1, sb_loaded = 3,
     sb_compr = [0x42, 0x5A, 0x68, 0x39, 0x31, 0x41, 0x59, 0x26, 0x53, 0x59, 0, 0] \<rparr>"





definition input3 :: "byte list" where
  "input3 = replicate 2097152 0"

section \<open>Properties of the splitter\<close>

lemma split_mid_init: "split_mid (split_init input)"
  by (simp add: split_mid_def split_inv_def split_init_def)

lemma split_iter_empty:
  assumes m: "split_mid s" and e: "ss_input s = []"
  shows "\<exists>s'. split_iter s = Inr (s', False) \<and> split_inv s' \<and> ss_eof s'
     \<and> ss_published s' = ss_published s"
proof -
  obtain compr rest vacant where f: "split_fill (ss_input s) = (compr, rest, vacant)"
    by (cases "split_fill (ss_input s)") auto
  from split_fill_eq(5) [OF f] e have v: "vacant = MX_SPLIT" by simp
  have M: "MX_SPLIT \<noteq> 0" by (simp add: MX_SPLIT_def)
  show ?thesis
  proof (cases "ss_published s = []")
    case True
    with m M show ?thesis
      by (auto simp: split_iter_def f v split_alloc_def split_attach_def split_mid_def split_inv_def)
  next
    case False
    define a where "a = length (ss_published s) - 1"
    from False have a: "a < length (ss_published s)" by (cases "ss_published s") (auto simp: a_def)
    from m a have ok: "chunk_ok (ss_published s) (ss_heap s) a"
      by (simp add: split_mid_def split_inv_def)
    from a have "\<not> a + 1 < length (ss_published s)" by (simp add: a_def)
    with ok have h: "ss_heap s ! a = (ss_published s ! a)\<lparr> sb_next := None \<rparr>"
      and r: "0 < sb_refno (ss_heap s ! a)"
      by (auto simp: chunk_ok_def)
    from m have l: "length (ss_heap s) = length (ss_published s)"
      by (simp add: split_mid_def split_inv_def)
    from h have "(ss_heap s ! a)\<lparr> sb_next := None \<rparr> = ss_heap s ! a" by simp
    then have "(ss_heap s)[a := (ss_heap s ! a)\<lparr> sb_next := None \<rparr>] = ss_heap s"
      by (simp only: list_update_id)
    with m M False r show ?thesis
      by (auto simp: split_iter_def f v split_alloc_def split_attach_def split_mid_def
          split_inv_def a_def)
  qed
qed


lemma chunk_ok_extend:
  assumes ok: "\<forall>i<n. chunk_ok publ heap i" and lh: "length heap = n" and lp: "length publ = n"
    and full: "\<forall>i<n. sb_loaded (publ ! i) = MX_SPLIT"
    and b: "sb_id b = of_nat (n + 1)" "sb_next b = None" "sb_refno b = 1 + (if 0 < n then 1 else 0)"
      "0 < sb_loaded b" "sb_loaded b \<le> MX_SPLIT" "length (sb_compr b) = 4 * sb_loaded b"
    and h2: "heap2 = (if n = 0 then heap @ [b]
                else (heap @ [b])[n - 1 := ((heap @ [b]) ! (n - 1))\<lparr> sb_next := Some n \<rparr>])"
    and i: "i < n + 1"
  shows "chunk_ok (publ @ [b]) heap2 i"
proof (cases "i = n")
  case True
  with b lh lp h2 show ?thesis
    by (cases "n = 0") (simp_all add: chunk_ok_def nth_append)
next
  case False
  with i have lt: "i < n" by simp
  with ok have c: "chunk_ok publ heap i" by simp
  from lt full have f: "sb_loaded (publ ! i) = MX_SPLIT" by simp
  show ?thesis
  proof (cases "i = n - 1")
    case True
    with lt c f lh lp h2 show ?thesis
      by (simp add: chunk_ok_def nth_append)
  next
    case False
    with lt have "i + 1 < n" by simp
    with lt c f lh lp h2 False show ?thesis
      by (simp add: chunk_ok_def nth_append)
  qed
qed

lemma split_iter_nonempty:
  assumes m: "split_mid s" and e: "ss_input s \<noteq> []"
  shows "\<exists>s' again b. split_iter s = Inr (s', again)
     \<and> ss_published s' = ss_published s @ [b] \<and> split_inv s' \<and> (again \<longrightarrow> split_mid s')
     \<and> (\<not> again \<longrightarrow> ss_eof s')"
proof -
  obtain compr rest vacant where f: "split_fill (ss_input s) = (compr, rest, vacant)"
    by (cases "split_fill (ss_input s)") auto
  note fe = split_fill_eq [OF f]
  from fe(5) e have v: "vacant \<noteq> MX_SPLIT" by simp
  with fe(4) have vlt: "vacant < MX_SPLIT" by simp
  define n where "n = length (ss_published s)"
  define b where "b = \<lparr> sb_id = ss_id s + 1, sb_next = None,
      sb_refno = 1 + (if ss_atch_scan s \<noteq> None then 1 else 0),
      sb_loaded = MX_SPLIT - vacant, sb_compr = compr \<rparr>"
  define heap2 where "heap2 = (if n = 0 then ss_heap s @ [b]
      else (ss_heap s @ [b])[n - 1 := ((ss_heap s @ [b]) ! (n - 1))\<lparr> sb_next := Some n \<rparr>])"
  from m have inv: "\<forall>i<n. chunk_ok (ss_published s) (ss_heap s) i"
    and lh: "length (ss_heap s) = n" and idn: "ss_id s = of_nat n"
    and ne: "\<not> ss_eof s"
    and at: "ss_atch_scan s = (if n = 0 then None else Some (n - 1))"
    and full: "\<forall>i<n. sb_loaded (ss_published s ! i) = MX_SPLIT"
    by (auto simp: split_mid_def split_inv_def n_def)
  have al: "split_alloc s compr vacant = Some b"
    using v by (simp add: split_alloc_def b_def)
  have bid: "sb_id b = of_nat (n + 1)" by (simp add: b_def idn)
  have bref: "sb_refno b = 1 + (if 0 < n then 1 else 0)" by (simp add: b_def at)
  have bl: "0 < sb_loaded b" "sb_loaded b \<le> MX_SPLIT" using vlt by (simp_all add: b_def)
  have bc: "length (sb_compr b) = 4 * sb_loaded b" using fe(3) by (simp add: b_def)
  have bn: "sb_next b = None" by (simp add: b_def)
  have ok': "\<forall>i<n + 1. chunk_ok (ss_published s @ [b]) heap2 i"
    using chunk_ok_extend [OF inv lh n_def [symmetric] full bid bn bref bl bc heap2_def] by blast
  have refpos: "n \<noteq> 0 \<Longrightarrow> 0 < sb_refno ((ss_heap s @ [b]) ! (n - 1))"
  proof -
    assume "n \<noteq> 0"
    then have "n - 1 < n" by simp
    with inv have "chunk_ok (ss_published s) (ss_heap s) (n - 1)" by blast
    then have "0 < sb_refno (ss_heap s ! (n - 1))" by (auto simp: chunk_ok_def)
    with \<open>n - 1 < n\<close> lh show ?thesis by (simp add: nth_append)
  qed
  define s' where "s' = (if vacant = 0
      then s\<lparr> ss_input := rest, ss_id := sb_id b, ss_atch_scan := Some n, ss_heap := heap2,
             ss_next_scan := (if ss_next_scan s = None then Some n else ss_next_scan s),
             ss_published := ss_published s @ [b] \<rparr>
      else s\<lparr> ss_input := rest, ss_id := sb_id b, ss_heap := heap2,
             ss_next_scan := (if ss_next_scan s = None then Some n else ss_next_scan s),
             ss_eof := True, ss_published := ss_published s @ [b] \<rparr>)"
  have "split_iter s = split_attach s rest (Some b) vacant"
    by (simp add: split_iter_def f al)
  then have it: "split_iter s = Inr (s', vacant = 0)"
    using ne at lh refpos
    by (auto simp: split_attach_def s'_def heap2_def Let_def)
  have lh2: "length heap2 = n + 1" using lh by (simp add: heap2_def)
  have inv': "split_inv s'"
    using ok' lh2 bid by (simp add: split_inv_def s'_def n_def)
  have mid': "vacant = 0 \<Longrightarrow> split_mid s'"
  proof -
    assume z: "vacant = 0"
    then have "sb_loaded b = MX_SPLIT" by (simp add: b_def)
    with full have "\<forall>i<n + 1. sb_loaded ((ss_published s @ [b]) ! i) = MX_SPLIT"
      by (auto simp: nth_append n_def less_Suc_eq)
    with inv' z ne show ?thesis by (simp add: split_mid_def s'_def n_def)
  qed
  have "vacant \<noteq> 0 \<Longrightarrow> ss_eof s'" by (simp add: s'_def)
  moreover have "ss_published s' = ss_published s @ [b]" by (simp add: s'_def)
  ultimately show ?thesis using it inv' mid' by blast
qed


lemma split_loop_inv:
  "split_mid s \<Longrightarrow> \<exists>s'. split_loop s = Inr s' \<and> split_inv s' \<and> ss_eof s'"
proof (induction s rule: split_loop.induct)
  case (1 s)
  from 1(2) obtain s' again where it: "split_iter s = Inr (s', again)"
    and inv: "split_inv s'" and mid: "again \<longrightarrow> split_mid s'" and eof: "\<not> again \<longrightarrow> ss_eof s'"
    using split_iter_empty [of s] split_iter_nonempty [of s] by (cases "ss_input s = []") blast+
  show ?case
  proof (cases again)
    case True
    with mid have "split_mid s'" by simp
    from 1(1) [OF it refl True this] obtain s'' where
      "split_loop s' = Inr s''" "split_inv s''" "ss_eof s''" by blast
    with it True show ?thesis by (subst split_loop.simps) simp
  next
    case False
    with it inv eof show ?thesis by (subst split_loop.simps) simp
  qed
qed

lemma split_total: "\<exists>s. split input = Inr s \<and> split_inv s \<and> ss_eof s"
  unfolding split_def by (rule split_loop_inv [OF split_mid_init])

lemma split_input2:
  "split input2 = Inr \<lparr> ss_input = [], ss_id = 2, ss_atch_scan = Some 0,
      ss_heap = [\<lparr> sb_id = 1, sb_next = Some 1, sb_refno = 1, sb_loaded = 262144,
                    sb_compr = replicate 1048576 0 \<rparr>,
                 \<lparr> sb_id = 2, sb_next = None, sb_refno = 2, sb_loaded = 1,
                    sb_compr = [0, 0, 0, 0] \<rparr>],
      ss_next_scan = Some 0, ss_eof = True,
      ss_published = [\<lparr> sb_id = 1, sb_next = None, sb_refno = 1, sb_loaded = 262144,
                         sb_compr = replicate 1048576 0 \<rparr>,
                      \<lparr> sb_id = 2, sb_next = None, sb_refno = 2, sb_loaded = 1,
                         sb_compr = [0, 0, 0, 0] \<rparr>] \<rparr>"
  unfolding split_def input2_def
  apply (subst split_loop.simps)
  apply (simp add: split_init_def split_iter_def split_fill_def xread_def split_pad_eq
      split_alloc_def split_attach_def MX_SPLIT_def Let_def)
  apply (subst split_loop.simps)
  apply (simp add: split_iter_def split_fill_def xread_def split_pad_eq
      split_alloc_def split_attach_def MX_SPLIT_def Let_def numeral_3_eq_3)
  done

text \<open>
  C3, as stated: an input block holds 1,048,576 words and a turn of the splitter reads
  up to 4,194,304 bytes. The buffer is a quarter of that: an input of 1,048,577 bytes
  does not fit into one block, the splitter makes a full block of 262,144 words and a
  second block of one word.
\<close>

theorem C3_chunk_is_not_4MiB:
  "MX_SPLIT \<noteq> 1048576 \<and> 4 * MX_SPLIT \<noteq> 4194304
   \<and> (case split input2 of Inl e \<Rightarrow> False
       | Inr s \<Rightarrow> map sb_loaded (ss_published s) = [262144, 1])"
  by (simp add: split_input2) (simp add: MX_SPLIT_def)

text \<open>
  C3, amended: every input block has a buffer of \<open>MX_SPLIT\<close> = 262,144 32-bit words
  (1 MiB), and on each turn the splitter reads up to 4 * \<open>MX_SPLIT\<close> = 1,048,576 bytes
  from the input into that buffer, padded with zero bytes to whole words; every block
  it publishes holds between 1 and \<open>MX_SPLIT\<close> words.
\<close>

theorem C3_chunk_size:
  "MX_SPLIT = 262144 \<and> 4 * MX_SPLIT = 1048576
   \<and> (\<forall>input compr rest vacant. split_fill input = (compr, rest, vacant) \<longrightarrow>
        (\<exists>bytes. input = bytes @ rest \<and> length bytes \<le> 1048576
           \<and> (length bytes < 1048576 \<longrightarrow> rest = [])
           \<and> compr = bytes @ replicate ((1048576 - length bytes) mod 4) 0
           \<and> length compr = 4 * (MX_SPLIT - vacant) \<and> vacant \<le> MX_SPLIT))
   \<and> (\<forall>input s. split input = Inr s \<longrightarrow>
        (\<forall>b \<in> set (ss_published s). 0 < sb_loaded b \<and> sb_loaded b \<le> 262144
           \<and> length (sb_compr b) = 4 * sb_loaded b))"
proof -
  have M: "MX_SPLIT = 262144" and M4: "4 * MX_SPLIT = 1048576" by (simp_all add: MX_SPLIT_def)
  have fill: "\<exists>bytes. input = bytes @ rest \<and> length bytes \<le> 1048576
           \<and> (length bytes < 1048576 \<longrightarrow> rest = [])
           \<and> compr = bytes @ replicate ((1048576 - length bytes) mod 4) 0
           \<and> length compr = 4 * (MX_SPLIT - vacant) \<and> vacant \<le> MX_SPLIT"
    if f: "split_fill input = (compr, rest, vacant)" for input compr rest vacant
  proof -
    note fe = split_fill_eq [OF f]
    have "input = take (4 * MX_SPLIT) input @ rest" by (simp add: fe(2))
    moreover have "length (take (4 * MX_SPLIT) input) \<le> 1048576" by (simp add: M4)
    moreover have "length (take (4 * MX_SPLIT) input) < 1048576 \<longrightarrow> rest = []"
      by (simp add: fe(2) M4)
    moreover have "compr = take (4 * MX_SPLIT) input
        @ replicate ((1048576 - length (take (4 * MX_SPLIT) input)) mod 4) 0"
      using fe(1) by (simp only: M4)
    ultimately show ?thesis using fe(3) fe(4) by blast
  qed
  have publ: "0 < sb_loaded b \<and> sb_loaded b \<le> 262144 \<and> length (sb_compr b) = 4 * sb_loaded b"
    if s: "split input = Inr s" and b: "b \<in> set (ss_published s)" for input s b
  proof -
    from split_total [of input] s have inv: "split_inv s" by simp
    from b obtain i where i: "i < length (ss_published s)" and bi: "b = ss_published s ! i"
      by (auto simp: in_set_conv_nth)
    from inv i have "chunk_ok (ss_published s) (ss_heap s) i" by (simp add: split_inv_def)
    then show ?thesis by (simp add: chunk_ok_def bi MX_SPLIT_def)
  qed
  from M M4 fill publ show ?thesis by blast
qed

theorem C3_chunk_size_witness:
  "split_fill input2 = (replicate 1048576 0, [0], 0)
   \<and> (\<exists>bytes. input2 = bytes @ [0] \<and> length bytes \<le> 1048576
        \<and> replicate 1048576 0 = bytes @ replicate ((1048576 - length bytes) mod 4) 0)
   \<and> (\<exists>s. split input2 = Inr s \<and> map sb_loaded (ss_published s) = [262144, 1])"
proof -
  have f: "split_fill input2 = (replicate 1048576 0, [0], 0)"
    by (simp add: split_fill_def xread_def split_pad_eq MX_SPLIT_def input2_def)
  from C3_chunk_size f have "\<exists>bytes. input2 = bytes @ [0] \<and> length bytes \<le> 1048576
           \<and> (length bytes < 1048576 \<longrightarrow> [0::byte] = [])
           \<and> replicate 1048576 0 = bytes @ replicate ((1048576 - length bytes) mod 4) 0
           \<and> length (replicate 1048576 (0::byte)) = 4 * (MX_SPLIT - 0) \<and> 0 \<le> MX_SPLIT"
    by blast
  then have "\<exists>bytes. input2 = bytes @ [0] \<and> length bytes \<le> 1048576
        \<and> replicate 1048576 0 = bytes @ replicate ((1048576 - length bytes) mod 4) 0"
    by blast
  with f show ?thesis by (simp add: split_input2)
qed

text \<open>
  C5, as stated: at publication the reference count is 1 + (has_successor ? 1 : 0). On
  an input of 1,048,577 bytes the second block is published with count 2 and never has
  a successor, and the first is published with count 1 and gets a successor.
\<close>

theorem C5_refno_is_not_successor:
  "(case split input2 of Inl e \<Rightarrow> False
    | Inr s \<Rightarrow>
        length (ss_published s) = 2
        \<and> sb_refno (ss_published s ! 1) = 2 \<and> sb_next (ss_published s ! 1) = None
        \<and> sb_next (ss_heap s ! 1) = None
        \<and> sb_refno (ss_published s ! 1)
            \<noteq> 1 + (if sb_next (ss_heap s ! 1) \<noteq> None then 1 else 0)
        \<and> sb_refno (ss_published s ! 0) = 1 \<and> sb_next (ss_heap s ! 0) = Some 1
        \<and> sb_refno (ss_published s ! 0)
            \<noteq> 1 + (if sb_next (ss_heap s ! 0) \<noteq> None then 1 else 0))"
  by (simp add: split_input2)

text \<open>
  C5, amended: at the moment the splitter publishes an input block, the block's
  reference count is 1 + (has_predecessor ? 1 : 0): one reference for the scan chain
  and one more exactly when the block is not the first, for the \<open>next\<close> pointer of its
  predecessor. The blocks are numbered from 1, a block has no successor when it is
  published, and the \<open>next\<close> pointer of a block is set when the following one arrives.
\<close>

theorem C5_refno_at_publish:
  "split input = Inr s \<Longrightarrow> i < length (ss_published s) \<Longrightarrow>
     sb_refno (ss_published s ! i) = 1 + (if 0 < i then 1 else 0)
   \<and> sb_id (ss_published s ! i) = of_nat (i + 1)
   \<and> sb_next (ss_published s ! i) = None
   \<and> ss_heap s ! i = (ss_published s ! i)
        \<lparr> sb_next := (if i + 1 < length (ss_published s) then Some (i + 1) else None) \<rparr>"
proof -
  assume s: "split input = Inr s" and i: "i < length (ss_published s)"
  from split_total [of input] s have "split_inv s" by simp
  with i have "chunk_ok (ss_published s) (ss_heap s) i" by (simp add: split_inv_def)
  then show ?thesis by (simp add: chunk_ok_def)
qed

theorem C5_refno_at_publish_witness:
  "(\<exists>s. split input2 = Inr s \<and> 1 < length (ss_published s)
      \<and> sb_refno (ss_published s ! 1) = 2 \<and> sb_id (ss_published s ! 1) = 2
      \<and> sb_refno (ss_published s ! 0) = 1 \<and> sb_id (ss_published s ! 0) = 1)"
proof -
  from split_total [of input2] obtain s where s: "split input2 = Inr s" by blast
  from s have l: "1 < length (ss_published s)" by (auto simp: split_input2)
  from l have l0: "0 < length (ss_published s)" by linarith
  from C5_refno_at_publish [OF s l] C5_refno_at_publish [OF s l0] s l show ?thesis
    by (intro exI [of _ s]) auto
qed

section \<open>Properties of the muxer\<close>

lemma rotl1: "push_bit 1 (w :: 32 word) XOR drop_bit 31 w = word_rotl 1 w"
proof (rule bit_word_eqI)
  fix n assume n: "n < LENGTH(32)"
  have a: "bit (push_bit 1 w) n \<longleftrightarrow> 1 \<le> n \<and> bit w (n - 1)"
    using n unfolding bit_push_bit_iff by (auto simp: possible_bit_word)
  have b: "bit (drop_bit 31 w) n \<longleftrightarrow> bit w (31 + n)"
    unfolding bit_drop_bit_eq by simp
  have c: "bit (word_rotl 1 w) n \<longleftrightarrow> bit w ((n + 31) mod 32)"
    using n unfolding bit_word_rotl_iff by simp
  show "bit (push_bit 1 w XOR drop_bit 31 w) n = bit (word_rotl 1 w) n"
  proof (cases "n = 0")
    case True
    then show ?thesis unfolding bit_xor_iff a b c by simp
  next
    case False
    with n have "(n + 31) mod 32 = n - 1" by (simp add: mod_if)
    moreover from False n have "\<not> bit w (31 + n)" by (auto dest: bit_imp_le_length)
    ultimately show ?thesis using False n unfolding bit_xor_iff a b c by simp
  qed
qed

text \<open>
  C2, as stated: the next-needed triple starts at (1, 0, 0). It does not: both copies
  start at (0, 0, 0), and a sub-block with identity (1, 0, 0) that arrives first stays
  in the queue unwritten.
\<close>

theorem C2_needed_not_1_0_0:
  "reord_needed mux_init \<noteq> nid 1 0 0
   \<and> mux_drain 0 mux_init [sub_blk 1 0 True 0 True 9 0 0 0]
       = Inr (mux_init, [sub_blk 1 0 True 0 True 9 0 0 0])"
  by (simp add: mux_init_def nid_def sub_blk_def w2m_blk_id_eq_def)

text \<open>
  C2, amended: when the muxer starts, its next-needed triple is (0, 0, 0), in \<open>mux\<close> as
  in \<open>w2m_q_init\<close>, and the first sub-block the muxer waits for and emits is the one with
  identity (0, 0, 0): a sub-block with another identity at the head of the queue is
  left there; one with identity (0, 0, 0) is taken, and when the muxer does not stop on
  it, it is the first sub-block taken, its bytes are the first written, and the triple
  becomes (1, 0, 0), (0, 1, 0) or (0, 0, 1) according to its two flags. The sub-block
  that \<open>work_decompr\<close> makes of the block without decoder, as \<open>work_oflush\<close> publishes it,
  has identity (0, 0, 0) and both flags.
\<close>

theorem C2_needed_initial:
  "reord_needed mux_init = nid 0 0 0
   \<and> (\<forall>n q. w2m_q_init n = Inr q \<longrightarrow> needed q = nid 0 0 0)
   \<and> (\<forall>isize b reord. \<not> w2m_blk_id_eq (wm_id b) (nid 0 0 0)
         \<longrightarrow> mux_drain isize mux_init (b # reord) = Inr (mux_init, b # reord))
   \<and> (\<forall>isize b reord. w2m_blk_id_eq (wm_id b) (nid 0 0 0)
         \<longrightarrow> mux_drain isize mux_init (b # reord) =
               (case mux_blk isize mux_init b of
                  Inl e \<Rightarrow> Inl e
                | Inr st \<Rightarrow> mux_drain isize st reord))
   \<and> (\<forall>isize b st. mux_blk isize mux_init b = Inr st
         \<longrightarrow> popped st = [(b, False)]
             \<and> written st = take (produced b) (decompr b)
             \<and> reord_needed st =
                 (if last_decompr (wm_id b) \<and> last_bzip2 (w2w_id (wm_id b)) then nid 1 0 0
                  else if last_decompr (wm_id b) then nid 0 1 0
                  else nid 0 0 1))
   \<and> (\<forall>yb w sid bz lastb q q'.
         ybdec w = None \<and> work_decompr yb (fst (work_oflush w sid bz lastb)) q = Some (Inr q')
         \<longrightarrow> (\<exists>b. head q' = b # head q \<and> w2m_blk_id_eq (wm_id b) (nid 0 0 0)
                  \<and> last_decompr (wm_id b) \<and> last_bzip2 (w2w_id (wm_id b))))"
proof -
  have a: "reord_needed mux_init = nid 0 0 0" by (simp add: mux_init_def nid_def)
  have b: "needed q = nid 0 0 0" if "w2m_q_init n = Inr q" for n q
    using that by (auto simp: w2m_q_init_def nid_def split: if_splits)
  have c: "mux_drain isize mux_init (b # reord) = Inr (mux_init, b # reord)"
    if "\<not> w2m_blk_id_eq (wm_id b) (nid 0 0 0)" for isize b reord
    using that by (simp add: a)
  have d: "mux_drain isize mux_init (b # reord) =
               (case mux_blk isize mux_init b of
                  Inl e \<Rightarrow> Inl e
                | Inr st \<Rightarrow> mux_drain isize st reord)"
    if "w2m_blk_id_eq (wm_id b) (nid 0 0 0)" for isize b reord
    using that by (simp add: a)
  have e: "popped st = [(b, False)]
             \<and> written st = take (produced b) (decompr b)
             \<and> reord_needed st =
                 (if last_decompr (wm_id b) \<and> last_bzip2 (w2w_id (wm_id b)) then nid 1 0 0
                  else if last_decompr (wm_id b) then nid 0 1 0
                  else nid 0 0 1)"
    if "mux_blk isize mux_init b = Inr st" for isize b st
    using that
    by (auto simp: mux_blk_def mux_init_def mux_crc_fold_def mux_new_stream_def mux_write_def
          mux_progress_def mux_advance_def nid_def Let_def
        split: if_splits sum.splits)
  have f: "\<exists>b. head q' = b # head q \<and> w2m_blk_id_eq (wm_id b) (nid 0 0 0)
                  \<and> last_decompr (wm_id b) \<and> last_bzip2 (w2w_id (wm_id b))"
    if "ybdec w = None \<and> work_decompr yb (fst (work_oflush w sid bz lastb)) q = Some (Inr q')"
    for yb :: "'d yambi" and w sid bz lastb q q'
    using that
    by (auto simp: work_decompr_def work_oflush_def w2m_push_def w2m_blk_id_eq_def nid_def
        split: if_splits)
  from a b c d e f show ?thesis by blast
qed

theorem C2_needed_initial_witness:
  "w2m_q_init 1 = Inr \<lparr> needed = nid 0 0 0, head = [], working = 1, num_rel = 0 \<rparr>
   \<and> \<not> w2m_blk_id_eq (wm_id (sub_blk 1 0 True 0 True 9 0 0 0)) (nid 0 0 0)
   \<and> mux_drain 0 mux_init [sub_blk 1 0 True 0 True 9 0 0 0]
       = Inr (mux_init, [sub_blk 1 0 True 0 True 9 0 0 0])
   \<and> w2m_blk_id_eq (wm_id (sub_blk 0 0 True 0 True 9 0 0 0)) (nid 0 0 0)
   \<and> mux_blk 0 mux_init (sub_blk 0 0 True 0 True 9 0 0 0)
       = Inr (mux_init\<lparr> reord_needed := nid 1 0 0, mx_bs100k := 9, any := True,
                popped := [(sub_blk 0 0 True 0 True 9 0 0 0, False)] \<rparr>)
   \<and> mux_drain 0 mux_init [sub_blk 0 0 True 0 True 9 0 0 0, sub_blk 1 0 False 0 False 0 0 0 0]
       = Inr (mux_init\<lparr> reord_needed := nid 1 0 1, mx_bs100k := 9, any := True,
                popped := [(sub_blk 0 0 True 0 True 9 0 0 0, False),
                           (sub_blk 1 0 False 0 False 0 0 0 0, False)] \<rparr>, [])"
proof -
  have q: "w2m_q_init 1 = Inr \<lparr> needed = nid 0 0 0, head = [], working = 1, num_rel = 0 \<rparr>"
    by (simp add: w2m_q_init_def nid_def)
  have n1: "\<not> w2m_blk_id_eq (wm_id (sub_blk 1 0 True 0 True 9 0 0 0)) (nid 0 0 0)"
    and n0: "w2m_blk_id_eq (wm_id (sub_blk 0 0 True 0 True 9 0 0 0)) (nid 0 0 0)"
    by (simp_all add: w2m_blk_id_eq_def sub_blk_def nid_def)
  have m: "mux_blk 0 mux_init (sub_blk 0 0 True 0 True 9 0 0 0)
       = Inr (mux_init\<lparr> reord_needed := nid 1 0 0, mx_bs100k := 9, any := True,
                popped := [(sub_blk 0 0 True 0 True 9 0 0 0, False)] \<rparr>)"
    by (simp add: nid_def sub_blk_def mux_init_def mux_blk_def mux_crc_fold_def
        mux_new_stream_def mux_write_def mux_progress_def mux_advance_def Let_def)
  have m2: "mux_drain 0 (mux_init\<lparr> reord_needed := nid 1 0 0, mx_bs100k := 9, any := True,
                popped := [(sub_blk 0 0 True 0 True 9 0 0 0, False)] \<rparr>)
              [sub_blk 1 0 False 0 False 0 0 0 0]
       = Inr (mux_init\<lparr> reord_needed := nid 1 0 1, mx_bs100k := 9, any := True,
                popped := [(sub_blk 0 0 True 0 True 9 0 0 0, False),
                           (sub_blk 1 0 False 0 False 0 0 0 0, False)] \<rparr>, [])"
    by (simp add: nid_def sub_blk_def mux_init_def mux_blk_def mux_crc_fold_def
        mux_new_stream_def mux_write_def mux_progress_def mux_advance_def Let_def
        w2m_blk_id_eq_def)
  from C2_needed_initial have
    c: "\<And>isize b reord. \<not> w2m_blk_id_eq (wm_id b) (nid 0 0 0)
         \<Longrightarrow> mux_drain isize mux_init (b # reord) = Inr (mux_init, b # reord)"
    and d: "\<And>isize b reord. w2m_blk_id_eq (wm_id b) (nid 0 0 0)
         \<Longrightarrow> mux_drain isize mux_init (b # reord) =
               (case mux_blk isize mux_init b of
                  Inl e \<Rightarrow> Inl e
                | Inr st \<Rightarrow> mux_drain isize st reord)"
    by blast+
  from c [OF n1, of 0 "[]"] d [OF n0, of 0 "[sub_blk 1 0 False 0 False 0 0 0 0]"] q n1 n0 m m2
  show ?thesis by simp
qed

text \<open>
  C6: after the muxer has emitted a sub-block, the next-needed triple is
  (input_chunk_id + 1, 0, 0) if the sub-block is the last of its bzip2 block and that
  the last of its input block; (input_chunk_id, bzip2_idx + 1, 0) if only the first
  holds; and (input_chunk_id, bzip2_idx, sub_idx + 1) otherwise. The sums are those of
  \<open>uintmax_t\<close>.
\<close>

theorem C6_needed_advance:
  "mux_blk isize st b = Inr st' \<Longrightarrow>
   reord_needed st' =
     (if last_decompr (wm_id b) \<and> last_bzip2 (w2w_id (wm_id b))
        then nid (n_s2w_blk_id (reord_needed st) + 1) 0 0
      else if last_decompr (wm_id b)
        then nid (n_s2w_blk_id (reord_needed st)) (n_bzip2_blk_id (reord_needed st) + 1) 0
      else nid (n_s2w_blk_id (reord_needed st)) (n_bzip2_blk_id (reord_needed st))
             (n_decompr_blk_id (reord_needed st) + 1))"
  by (auto simp: mux_blk_def mux_advance_def mux_crc_fold_def mux_new_stream_def
        mux_progress_def mux_write_def nid_def Let_def
      split: if_splits sum.splits)

theorem C6_needed_advance_witness:
  "mux_blk 0 mux_init (sub_blk 0 0 True 0 True 9 0 0 0)
     = Inr (mux_init\<lparr> reord_needed := nid 1 0 0, mx_bs100k := 9, any := True,
              popped := [(sub_blk 0 0 True 0 True 9 0 0 0, False)] \<rparr>)
   \<and> reord_needed (mux_init\<lparr> reord_needed := nid 1 0 0, mx_bs100k := 9, any := True,
              popped := [(sub_blk 0 0 True 0 True 9 0 0 0, False)] \<rparr>) = nid 1 0 0"
proof -
  have e: "mux_blk 0 mux_init (sub_blk 0 0 True 0 True 9 0 0 0)
     = Inr (mux_init\<lparr> reord_needed := nid 1 0 0, mx_bs100k := 9, any := True,
              popped := [(sub_blk 0 0 True 0 True 9 0 0 0, False)] \<rparr>)"
    by (simp add: nid_def sub_blk_def mux_init_def mux_blk_def
      mux_crc_fold_def mux_new_stream_def mux_write_def mux_progress_def mux_advance_def Let_def)
  from C6_needed_advance [OF e] e show ?thesis
    by (simp add: sub_blk_def mux_init_def)
qed

text \<open>
  C7: while the last stream is not finished, a sub-block that is the last of its bzip2
  block makes the muxer replace the stream CRC by its rotation to the left by one bit,
  \<open>(crc << 1) ^ (crc >> 31)\<close>, combined by exclusive or with the CRC computed for the
  block, and the muxer stops with "block overrun" exactly when the block's \<open>bs100k1\<close> is
  greater than the \<open>bs100k\<close> of the stream. (The new CRC is the one compared with the
  stored stream CRC if the sub-block also closes the stream, and is the muxer's CRC
  after the sub-block if it does not.)
\<close>

theorem C7_crc_fold:
  "\<not> finished st \<Longrightarrow> last_decompr (wm_id b) \<Longrightarrow>
   push_bit 1 (mx_crc st) XOR drop_bit 31 (mx_crc st) = word_rotl 1 (mx_crc st)
   \<and> mux_crc_fold st b =
       (if mx_bs100k st < bs100k1 b then Inl (Fatal ''block overrun'')
        else Inr (st\<lparr> mx_crc := word_rotl 1 (mx_crc st) XOR crc1 b \<rparr>))
   \<and> (mux_blk isize st b = Inl (Fatal ''block overrun'') \<longleftrightarrow> mx_bs100k st < bs100k1 b)
   \<and> (mux_blk isize st b = Inl (Fatal ''stream CRC mismatch'') \<longleftrightarrow>
        \<not> mx_bs100k st < bs100k1 b \<and> bs100k b \<noteq> 0
        \<and> word_rotl 1 (mx_crc st) XOR crc1 b \<noteq> crc b)
   \<and> (\<forall>st'. mux_blk isize st b = Inr st' \<and> bs100k b = 0
        \<longrightarrow> mx_crc st' = word_rotl 1 (mx_crc st) XOR crc1 b)"
proof (intro conjI allI impI)
  assume nf: "\<not> finished st" and l: "last_decompr (wm_id b)"
  show r: "push_bit 1 (mx_crc st) XOR drop_bit 31 (mx_crc st) = word_rotl 1 (mx_crc st)"
    by (rule rotl1)
  show f: "mux_crc_fold st b =
       (if mx_bs100k st < bs100k1 b then Inl (Fatal ''block overrun'')
        else Inr (st\<lparr> mx_crc := word_rotl 1 (mx_crc st) XOR crc1 b \<rparr>))"
    using l unfolding mux_crc_fold_def Let_def rotl1 by simp
  show "mux_blk isize st b = Inl (Fatal ''block overrun'') \<longleftrightarrow> mx_bs100k st < bs100k1 b"
    using nf by (auto simp: mux_blk_def f mux_new_stream_def Let_def split: sum.splits if_splits)
  show "mux_blk isize st b = Inl (Fatal ''stream CRC mismatch'') \<longleftrightarrow>
        \<not> mx_bs100k st < bs100k1 b \<and> bs100k b \<noteq> 0
        \<and> word_rotl 1 (mx_crc st) XOR crc1 b \<noteq> crc b"
    using nf by (auto simp: mux_blk_def f mux_new_stream_def Let_def split: sum.splits if_splits)
  fix st' assume "mux_blk isize st b = Inr st' \<and> bs100k b = 0"
  then show "mx_crc st' = word_rotl 1 (mx_crc st) XOR crc1 b"
    using nf
    by (auto simp: mux_blk_def f mux_new_stream_def mux_progress_def mux_write_def
          mux_advance_def Let_def split: sum.splits if_splits)
qed

theorem C7_crc_fold_witness:
  "\<not> finished (mux_init\<lparr> mx_crc := 0x80000001, mx_bs100k := 5 \<rparr>)
   \<and> last_decompr (wm_id (sub_blk 0 0 False 0 True 0 5 0 0xF0))
   \<and> mux_crc_fold (mux_init\<lparr> mx_crc := 0x80000001, mx_bs100k := 5 \<rparr>) (sub_blk 0 0 False 0 True 0 5 0 0xF0)
       = Inr (mux_init\<lparr> mx_crc := 0xF3, mx_bs100k := 5 \<rparr>)
   \<and> mux_crc_fold (mux_init\<lparr> mx_crc := 0x80000001, mx_bs100k := 5 \<rparr>) (sub_blk 0 0 False 0 True 0 6 0 0xF0)
       = Inl (Fatal ''block overrun'')"
proof -
  have w: "word_rotl 1 (0x80000001 :: 32 word) = 3"
    unfolding rotl1 [symmetric] by simp
  have h1: "\<not> finished (mux_init\<lparr> mx_crc := 0x80000001, mx_bs100k := 5 \<rparr>)"
    by (simp add: mux_init_def)
  have h2: "last_decompr (wm_id (sub_blk 0 0 False 0 True 0 5 0 0xF0))"
    and h3: "last_decompr (wm_id (sub_blk 0 0 False 0 True 0 6 0 0xF0))"
    by (simp_all add: sub_blk_def)
  from C7_crc_fold [OF h1 h2, of 0] C7_crc_fold [OF h1 h3, of 0] h1 h2 show ?thesis
    by (simp add: w mux_init_def sub_blk_def)
qed

section \<open>Properties of the scanner\<close>

lemma published_append [simp]: "published (es @ fs) = published es @ published fs"
  by (induction es rule: published.induct) auto




lemma ev_inv_upd [simp]:
  "ev_inv (s\<lparr> pc := p \<rparr>) = ev_inv s"
  "ev_inv (s\<lparr> w2w := w \<rparr>) = ev_inv s"
  "ev_inv (s\<lparr> ipos := i \<rparr>) = ev_inv s"
  "ev_inv (s\<lparr> ibitbuf := b \<rparr>) = ev_inv s"
  "ev_inv (s\<lparr> ibits_left := l \<rparr>) = ev_inv s"
  "ev_inv (s\<lparr> cur := c \<rparr>) = ev_inv s"
  "ev_inv (s\<lparr> chain := r \<rparr>) = ev_inv s"
  "ev_inv (s\<lparr> first := f \<rparr>) = ev_inv s"
  by (simp_all add: ev_inv_def)
















lemma release_obs [simp]:
  "w2w (release s) = w2w s" "pc (release s) = pc s"
  "first_s2w_blk_id (release s) = first_s2w_blk_id s" "cur (release s) = cur s"
  "ipos (release s) = ipos s" "first (release s) = first s" "chain (release s) = chain s"
  "ibits_left (release s) = ibits_left s" "ibitbuf (release s) = ibitbuf s"
  "bzip2_id (release s) = bzip2_id s"
  by (simp_all add: release_def)

lemma obs_upd [simp]:
  "good (s\<lparr> pc := p \<rparr>) = good s" "good (s\<lparr> w2w := w \<rparr>) = good s"
  "good (s\<lparr> ipos := i \<rparr>) = good s" "good (s\<lparr> ibitbuf := b \<rparr>) = good s"
  "good (s\<lparr> ibits_left := l \<rparr>) = good s" "good (s\<lparr> cur := c \<rparr>) = good s"
  "good (s\<lparr> chain := r \<rparr>) = good s" "good (s\<lparr> first := f \<rparr>) = good s"
  "good (release s) = good s"
  by (simp_all add: good_def release_def)

lemma runA_upd [simp]:
  "runA (s\<lparr> pc := p \<rparr>) = runA s"
  "runA (s\<lparr> ipos := i \<rparr>) = runA s" "runA (s\<lparr> ibitbuf := b \<rparr>) = runA s"
  "runA (s\<lparr> ibits_left := l \<rparr>) = runA s" "runA (s\<lparr> cur := c \<rparr>) = runA s"
  "runA (s\<lparr> chain := r \<rparr>) = runA s" "runA (s\<lparr> first := f \<rparr>) = runA s"
  "runA (release s) = runA s"
  by (simp_all add: runA_def release_def)

lemma runB_upd [simp]:
  "runB (s\<lparr> pc := p \<rparr>) = runB s"
  "runB (s\<lparr> ipos := i \<rparr>) = runB s" "runB (s\<lparr> ibitbuf := b \<rparr>) = runB s"
  "runB (s\<lparr> ibits_left := l \<rparr>) = runB s" "runB (s\<lparr> cur := c \<rparr>) = runB s"
  "runB (s\<lparr> chain := r \<rparr>) = runB s" "runB (s\<lparr> first := f \<rparr>) = runB s"
  "runB (release s) = runB s"
  by (simp_all add: runB_def release_def good_def)

lemma fin_upd [simp]:
  "fin (s\<lparr> pc := p \<rparr>) = fin s" "fin (s\<lparr> w2w := w \<rparr>) = fin s"
  "failed (s\<lparr> pc := p \<rparr>) = failed s" "failed (s\<lparr> w2w := w \<rparr>) = failed s"
  "failed (s\<lparr> ipos := i \<rparr>) = failed s" "failed (s\<lparr> ibitbuf := b \<rparr>) = failed s"
  "failed (s\<lparr> ibits_left := l \<rparr>) = failed s" "failed (s\<lparr> cur := c \<rparr>) = failed s"
  "failed (s\<lparr> chain := r \<rparr>) = failed s" "failed (s\<lparr> first := f \<rparr>) = failed s"
  "failed (release s) = failed s"
  by (simp_all add: fin_def failed_def release_def good_def)










lemma pendA_upd [simp]:
  "pendA st (s\<lparr> pc := p \<rparr>) = pendA st s"
  "pendA st (s\<lparr> ipos := i \<rparr>) = pendA st s" "pendA st (s\<lparr> ibitbuf := b \<rparr>) = pendA st s"
  "pendA st (s\<lparr> ibits_left := l \<rparr>) = pendA st s" "pendA st (s\<lparr> cur := c \<rparr>) = pendA st s"
  "pendA st (s\<lparr> chain := r \<rparr>) = pendA st s" "pendA st (s\<lparr> first := f \<rparr>) = pendA st s"
  "pendA st (release s) = pendA st s"
  by (simp_all add: pendA_def)





lemma w2w_upd [simp]:
  "runB (s\<lparr> w2w := (w2w s)\<lparr> ww_crc := c \<rparr> \<rparr>) = runB s"
  "runB (s\<lparr> w2w := (w2w s)\<lparr> ww_bs100k := b \<rparr> \<rparr>) = runB s"
  "runB (s\<lparr> w2w := set_end_offs blk i (w2w s) \<rparr>) = runB s"
  "runA (s\<lparr> w2w := (w2w s)\<lparr> ww_crc := c \<rparr> \<rparr>) = runA s"
  "runA (s\<lparr> w2w := (w2w s)\<lparr> ww_bs100k := b \<rparr> \<rparr>) = runA s"
  "runA (s\<lparr> w2w := set_end_offs blk i (w2w s) \<rparr>) = runA s"
  "pendA st (s\<lparr> w2w := (w2w s)\<lparr> ww_crc := c \<rparr> \<rparr>) = pendA st s"
  "pendA st (s\<lparr> w2w := set_end_offs blk i (w2w s) \<rparr>) = pendA st s"
  by (simp_all add: runB_def runA_def pendA_def good_def set_end_offs_def)
















lemma fid_flush [simp]: "first_s2w_blk_id (flush lastb s) = first_s2w_blk_id s"
  by (simp add: flush_def Let_def split: prod.splits)

lemma fid_flush_late [simp]: "first_s2w_blk_id (flush_late s) = first_s2w_blk_id s"
  by (simp add: flush_late_def Let_def split: prod.splits)

lemma fid_get_second:
  assumes "\<And>t. first_s2w_blk_id (z t) = first_s2w_blk_id t"
    and "\<And>t. first_s2w_blk_id (k t) = first_s2w_blk_id t"
  shows "first_s2w_blk_id (get_second z k s) = first_s2w_blk_id s"
  using assms by (simp add: get_second_def Let_def split: list.splits)

lemma fid_retrieve: "retrieve yb s = Some (r, s1) \<Longrightarrow> first_s2w_blk_id s1 = first_s2w_blk_id s"
  by (auto simp: retrieve_def split: option.splits prod.splits)

lemma fid_sm_switch [simp]: "first_s2w_blk_id (sm_switch st word s) = first_s2w_blk_id s"
  by (cases st) (simp_all add: sm_switch_def Let_def)

lemma fid_after_accept [simp]: "first_s2w_blk_id (after_accept yb junk s) = first_s2w_blk_id s"
  by (simp add: after_accept_def)

lemma fid_take16 [simp]: "first_s2w_blk_id (take16 yb junk st bs) = first_s2w_blk_id (snd bs)"
  by (cases bs) (simp add: take16_def Let_def)

lemma fid_load_word [simp]: "first_s2w_blk_id (snd (load_word s)) = first_s2w_blk_id s"
  by (simp add: load_word_def)

lemma fid_step_outer: "first_s2w_blk_id (step_outer yb junk s) = first_s2w_blk_id s"
  by (auto simp: step_outer_def fid_get_second split: option.splits dest: fid_retrieve)

lemma fid_step_inner: "first_s2w_blk_id (step_inner yb junk s) = first_s2w_blk_id s"
  by (auto simp: step_inner_def split: option.splits dest: fid_retrieve)

lemma fid_step_magic: "first_s2w_blk_id (step_magic yb junk st s) = first_s2w_blk_id s"
  by (simp add: step_magic_def Let_def fid_get_second)

lemma fid_step [simp]: "first_s2w_blk_id (step yb junk s) = first_s2w_blk_id s"
  by (cases "pc s") (simp_all add: step_def fid_step_outer fid_step_inner fid_step_magic)

lemma fid_run [simp]: "first_s2w_blk_id (run yb junk n s) = first_s2w_blk_id s"
  by (induction n arbitrary: s) simp_all

lemma step_final: "\<not> live (pc s) \<Longrightarrow> step yb junk s = s"
  by (cases "pc s") (simp_all add: step_def)

lemma run_final: "\<not> live (pc s) \<Longrightarrow> run yb junk n s = s"
  by (induction n) (simp_all add: step_final)

lemma scan_big_end:
  "ipos0 < sb_loaded blk \<Longrightarrow> scan_big tab blk state ipos0 = (state', bt, w, p)
   \<Longrightarrow> dfa_ACCEPT tab \<noteq> state' \<Longrightarrow> p = sb_loaded blk"
proof (induction tab blk state ipos0 rule: scan_big.induct)
  case (1 tab blk state ipos0)
  let ?w = "ntohl_compr blk ipos0"
  let ?st4 = "big_dfa tab (big_dfa tab (big_dfa tab (big_dfa tab state
      (unat (drop_bit 24 ?w))) (unat (drop_bit 16 ?w AND 0xFF)))
      (unat (drop_bit 8 ?w AND 0xFF))) (unat (?w AND 0xFF))"
  show ?case
  proof (cases "dfa_ACCEPT tab \<noteq> ?st4 \<and> sb_loaded blk > ipos0 + 1")
    case True
    then have "scan_big tab blk state ipos0 = scan_big tab blk ?st4 (ipos0 + 1)"
      by (subst scan_big.simps) (simp add: Let_def)
    with 1(3) have r: "scan_big tab blk ?st4 (ipos0 + 1) = (state', bt, w, p)" by simp
    from True have t: "dfa_ACCEPT tab \<noteq> ?st4 \<and> ipos0 + 1 < sb_loaded blk"
      and l: "ipos0 + 1 < sb_loaded blk" by simp_all
    show ?thesis
      by (rule 1(1) [OF refl refl refl refl refl refl refl t l r 1(4)])
  next
    case False
    then have "scan_big tab blk state ipos0 = (?st4, state, ?w, ipos0 + 1)"
      by (subst scan_big.simps) (auto simp: Let_def)
    with 1(3) have "state' = ?st4" "p = ipos0 + 1" by auto
    with False 1(2) 1(4) show ?thesis by simp
  qed
qed

lemma split_hdr_input:
  "split hdr_input = Inr \<lparr> ss_input = [], ss_id = 1, ss_atch_scan = None, ss_heap = [hdr_blk],
      ss_next_scan = Some 0, ss_eof = True, ss_published = [hdr_blk] \<rparr>"
  unfolding split_def hdr_input_def hdr_blk_def
  apply (subst split_loop.simps)
  apply (simp add: split_init_def split_iter_def split_fill_def xread_def split_pad_eq
      split_alloc_def split_attach_def MX_SPLIT_def Let_def numeral_2_eq_2)
  done







lemma scan_mini_never: "scan_mini tab_never w 0 n = (0, 0)"
proof (induction n)
  case 0
  show ?case by (subst scan_mini.simps) (simp add: tab_never_def)
next
  case (Suc n)
  have "scan_mini tab_never w 0 (Suc n) = scan_mini tab_never w 0 n"
    by (subst scan_mini.simps) (simp add: tab_never_def)
  with Suc show ?case by simp
qed

lemma scan_big_never:
  "ipos0 < sb_loaded blk \<Longrightarrow>
   \<exists>w. scan_big tab_never blk 0 ipos0 = (0, 0, w, sb_loaded blk)"
proof (induction "sb_loaded blk - ipos0" arbitrary: ipos0)
  case 0
  then show ?case by simp
next
  case (Suc k)
  show ?case
  proof (cases "sb_loaded blk > ipos0 + 1")
    case True
    then have "scan_big tab_never blk 0 ipos0 = scan_big tab_never blk 0 (ipos0 + 1)"
      by (subst scan_big.simps) (simp add: tab_never_def Let_def)
    moreover from Suc(2) True have "k = sb_loaded blk - (ipos0 + 1)" by simp
    from Suc(1) [OF this True]
    obtain w where "scan_big tab_never blk 0 (ipos0 + 1) = (0, 0, w, sb_loaded blk)" by blast
    ultimately show ?thesis by simp
  next
    case False
    with Suc(3) have e: "ipos0 + 1 = sb_loaded blk" by simp
    from False have "scan_big tab_never blk 0 ipos0 = (0, 0, ntohl_compr blk ipos0, ipos0 + 1)"
      by (subst scan_big.simps) (simp add: tab_never_def Let_def)
    with e show ?thesis by simp
  qed
qed

lemma split_input3:
  "split input3 = Inr \<lparr> ss_input = [], ss_id = 2, ss_atch_scan = Some 1,
      ss_heap = [\<lparr> sb_id = 1, sb_next = Some 1, sb_refno = 1, sb_loaded = 262144,
                    sb_compr = replicate 1048576 0 \<rparr>,
                 \<lparr> sb_id = 2, sb_next = None, sb_refno = 2, sb_loaded = 262144,
                    sb_compr = replicate 1048576 0 \<rparr>],
      ss_next_scan = Some 0, ss_eof = True,
      ss_published = [\<lparr> sb_id = 1, sb_next = None, sb_refno = 1, sb_loaded = 262144,
                         sb_compr = replicate 1048576 0 \<rparr>,
                      \<lparr> sb_id = 2, sb_next = None, sb_refno = 2, sb_loaded = 262144,
                         sb_compr = replicate 1048576 0 \<rparr>] \<rparr>"
  unfolding split_def input3_def
  apply (subst split_loop.simps)
  apply (simp add: split_init_def split_iter_def split_fill_def xread_def split_pad_eq
      split_alloc_def split_attach_def MX_SPLIT_def Let_def)
  apply (subst split_loop.simps)
  apply (simp add: split_iter_def split_fill_def xread_def split_pad_eq
      split_alloc_def split_attach_def MX_SPLIT_def Let_def)
  apply (subst split_loop.simps)
  apply (simp add: split_iter_def split_fill_def xread_def split_pad_eq
      split_alloc_def split_attach_def MX_SPLIT_def Let_def)
  done




text \<open>
  C9: when the scan of an input block with \<open>id\<close> > 1 finds no block header (neither
  automaton ends in its accepting state), a full block (\<open>loaded\<close> = \<open>MX_SPLIT\<close>) stops the
  process with "missing bzip2 block header in full first input block", and a short one
  is released and the scan returns without having published a block. The input block
  is one that the splitter made, with the blocks after it.
\<close>

theorem C9_no_block_header:
  assumes s: "split input = Inr s" and i: "i < length (ss_heap s)"
    and id: "1 < sb_id (ss_heap s ! i)"
    and big: "scan_big tab (ss_heap s ! i) 0 0 = (state, backtrack_state, w, p)"
    and mini: "scan_mini tab w backtrack_state 32 = (state', left)"
    and no: "dfa_ACCEPT tab \<noteq> state" "dfa_ACCEPT tab \<noteq> state'"
  shows "work_scan tab yb junk stale n (ss_heap s ! i) (drop (Suc i) (ss_heap s)) =
     (if sb_loaded (ss_heap s ! i) = MX_SPLIT
      then (Failed (Fatal ''missing bzip2 block header in full first input block''), [])
      else (Returned, [Release (sb_id (ss_heap s ! i))]))"
proof -
  from split_total [of input] s have inv: "split_inv s" by simp
  then have lh: "length (ss_heap s) = length (ss_published s)" by (simp add: split_inv_def)
  from inv i lh have ok: "chunk_ok (ss_published s) (ss_heap s) i" by (simp add: split_inv_def)
  then have h: "ss_heap s ! i = (ss_published s ! i)
      \<lparr> sb_next := (if i + 1 < length (ss_published s) then Some (i + 1) else None) \<rparr>"
    by (simp add: chunk_ok_def)
  from ok h have pos: "0 < sb_loaded (ss_heap s ! i)" and le: "sb_loaded (ss_heap s ! i) \<le> MX_SPLIT"
    and full: "i + 1 < length (ss_heap s) \<longrightarrow> sb_loaded (ss_heap s ! i) = MX_SPLIT"
    by (simp_all add: chunk_ok_def lh)
  from scan_big_end [OF pos big no(1)] have p: "p = sb_loaded (ss_heap s ! i)" .
  from full have rest: "sb_loaded (ss_heap s ! i) \<noteq> MX_SPLIT \<Longrightarrow> drop (Suc i) (ss_heap s) = []"
    by auto
  from pos le id no(2) rest show ?thesis
    by (auto simp: work_scan_def big mini p)
qed

theorem C9_no_block_header_witness:
  "(\<exists>s. split input2 = Inr s
      \<and> work_scan tab_never yb_more junk0 sb_id 0 (ss_heap s ! 1) (drop (Suc 1) (ss_heap s))
          = (Returned, [Release 2]))
   \<and> (\<exists>s. split input3 = Inr s
      \<and> work_scan tab_never yb_more junk0 sb_id 0 (ss_heap s ! 1) (drop (Suc 1) (ss_heap s))
          = (Failed (Fatal ''missing bzip2 block header in full first input block''), []))"
proof -
  from split_total [of input2] obtain s2 where s2: "split input2 = Inr s2" by blast
  from split_total [of input3] obtain s3 where s3: "split input3 = Inr s3" by blast
  from s2 have h2: "ss_heap s2 ! 1 = \<lparr> sb_id = 2, sb_next = None, sb_refno = 2, sb_loaded = 1,
                    sb_compr = [0, 0, 0, 0] \<rparr>" and l2: "1 < length (ss_heap s2)"
    by (auto simp: split_input2)
  from s3 have h3: "ss_heap s3 ! 1 = \<lparr> sb_id = 2, sb_next = None, sb_refno = 2, sb_loaded = 262144,
                    sb_compr = replicate 1048576 0 \<rparr>" and l3: "1 < length (ss_heap s3)"
    by (auto simp: split_input3)
  have id2: "1 < sb_id (ss_heap s2 ! 1)" and id3: "1 < sb_id (ss_heap s3 ! 1)"
    unfolding h2 h3 by simp_all
  have acc: "dfa_ACCEPT tab_never \<noteq> 0" by (simp add: tab_never_def)
  obtain w2 where b2: "scan_big tab_never (ss_heap s2 ! 1) 0 0 = (0, 0, w2, sb_loaded (ss_heap s2 ! 1))"
    using scan_big_never [of 0 "ss_heap s2 ! 1"] unfolding h2 by auto
  obtain w3 where b3: "scan_big tab_never (ss_heap s3 ! 1) 0 0 = (0, 0, w3, sb_loaded (ss_heap s3 ! 1))"
    using scan_big_never [of 0 "ss_heap s3 ! 1"] unfolding h3 by auto
  note r2 = C9_no_block_header [OF s2 l2 id2 b2 scan_mini_never acc acc, of yb_more junk0 sb_id 0]
  note r3 = C9_no_block_header [OF s3 l3 id3 b3 scan_mini_never acc acc, of yb_more junk0 sb_id 0]
  from r2 have "work_scan tab_never yb_more junk0 sb_id 0 (ss_heap s2 ! 1) (drop (Suc 1) (ss_heap s2))
          = (Returned, [Release 2])"
    unfolding h2 by (simp add: MX_SPLIT_def)
  moreover from r3 have "work_scan tab_never yb_more junk0 sb_id 0 (ss_heap s3 ! 1) (drop (Suc 1) (ss_heap s3))
          = (Failed (Fatal ''missing bzip2 block header in full first input block''), [])"
    unfolding h3 by (simp add: MX_SPLIT_def)
  ultimately show ?thesis using s2 s3 by blast
qed




end
